theory Spec2Isabelle
  imports Complex_Main "HOL-Library.Product_Lexorder" "HOL-Library.Multiset"
begin

section \<open>Rail Decision Support: the greedy scheduler of main.py\<close>

text \<open>
  The development embeds the scheduling core of \<^verbatim>\<open>main.py\<close> and the records of
  \<^verbatim>\<open>schemas.py\<close>, together with the parts of Python's \<^verbatim>\<open>float\<close> and
  \<^verbatim>\<open>datetime\<close> that the code uses and that can raise.

  Conventions of the embedding:
  \<^item> a raised exception is the \<open>Inl\<close> branch of a sum, and it ends the request;
  \<^item> a Python \<^verbatim>\<open>dict\<close> is a map \<open>'k \<rightharpoonup> 'v\<close>;
  \<^item> the result of \<^verbatim>\<open>get_domain_sections()\<close> (a database read), the reading of the clock
    taken by \<^verbatim>\<open>Schedule.created_at\<close> and the library function
    \<^verbatim>\<open>datetime.fromisoformat\<close> are parameters.
\<close>

subsection \<open>Exceptions\<close>

datatype error = HTTPException int string | TypeError | OverflowError | ValueError
  | ZeroDivisionError

definition ebind :: "error + 'a \<Rightarrow> ('a \<Rightarrow> error + 'b) \<Rightarrow> error + 'b" where
  "ebind m f = (case m of Inl e \<Rightarrow> Inl e | Inr x \<Rightarrow> f x)"

subsection \<open>Python floats\<close>

text \<open>
  A \<^verbatim>\<open>float\<close> is an IEEE 754 binary64 value: \<open>Fin x\<close> is the double of value \<open>x\<close>
  (the two zeros are not told apart: no operation used here distinguishes them), and
  every arithmetic result is rounded to the nearest double, ties to even.
\<close>

datatype pyfloat = Fin real | PInf | NInf | NaN

text \<open>The binary exponent \<open>\<lfloor>log\<^sub>2 q\<rfloor>\<close> of a positive number, by halving or doubling.\<close>

function exp2_up :: "real \<Rightarrow> int" where
  "exp2_up q = (if 2 \<le> q then exp2_up (q / 2) + 1 else 0)"
  by pat_completeness auto
termination
proof (relation "measure (\<lambda>q. nat \<lfloor>q\<rfloor>)")
  show "wf (measure (\<lambda>q::real. nat \<lfloor>q\<rfloor>))" by simp
next
  fix q :: real assume q: "2 \<le> q"
  have "q / 2 \<le> q - 1" using q by simp
  then have "\<lfloor>q / 2\<rfloor> \<le> \<lfloor>q - 1\<rfloor>" by (rule floor_mono)
  then have "\<lfloor>q / 2\<rfloor> < \<lfloor>q\<rfloor>" by simp
  moreover have "0 < \<lfloor>q\<rfloor>" using q by simp
  ultimately show "(q / 2, q) \<in> measure (\<lambda>q. nat \<lfloor>q\<rfloor>)" by simp
qed

function exp2_down :: "real \<Rightarrow> int" where
  "exp2_down q = (if 0 < q \<and> q < 1 then exp2_down (q * 2) - 1 else 0)"
  by pat_completeness auto
termination
proof (relation "measure (\<lambda>q. nat \<lceil>1 / q\<rceil>)")
  show "wf (measure (\<lambda>q::real. nat \<lceil>1 / q\<rceil>))" by simp
next
  fix q :: real assume "0 < q \<and> q < 1"
  then have q: "0 < q" "q < 1" by simp_all
  then have x: "1 < 1 / q" by simp
  then have c: "2 \<le> \<lceil>1 / q\<rceil>" by linarith
  have "1 / (q * 2) = (1 / q) / 2" by simp
  also have "\<dots> \<le> of_int \<lceil>1 / q\<rceil> / 2" by (simp add: divide_right_mono)
  also have "\<dots> \<le> of_int (\<lceil>1 / q\<rceil> - 1)" using c by simp
  finally have "\<lceil>1 / (q * 2)\<rceil> \<le> \<lceil>1 / q\<rceil> - 1" by (rule ceiling_le)
  with c have "nat \<lceil>1 / (q * 2)\<rceil> < nat \<lceil>1 / q\<rceil>" by linarith
  then show "(q * 2, q) \<in> measure (\<lambda>q. nat \<lceil>1 / q\<rceil>)" by simp
qed

declare exp2_up.simps [simp del]

declare exp2_down.simps [simp del]

definition exponent :: "real \<Rightarrow> int" where
  "exponent q = (if 1 \<le> q then exp2_up q else exp2_down q)"

definition round_half_even :: "real \<Rightarrow> int" where
  "round_half_even r =
     (let n = \<lfloor>r\<rfloor>; f = r - of_int n
      in if f < 1 / 2 then n else if 1 / 2 < f then n + 1 else if even n then n else n + 1)"

text \<open>
  Rounding to binary64: 53 significant bits, the exponent not below \<open>-1022\<close> (subnormal
  numbers), and infinity from \<open>2\<^sup>1\<^sup>0\<^sup>2\<^sup>4\<close> on.
\<close>

definition round_double :: "real \<Rightarrow> pyfloat" where
  "round_double q =
     (if q = 0 then Fin 0
      else let a = \<bar>q\<bar>;
               quantum = 2 powi (max (exponent a) (- 1022) - 52);
               v = of_int (round_half_even (a / quantum)) * quantum
           in if 2 ^ 1024 \<le> v then (if 0 < q then PInf else NInf)
              else Fin (if 0 < q then v else - v))"

text \<open>\<^verbatim>\<open>a < b\<close> on floats: false whenever an operand is a NaN.\<close>

fun fless :: "pyfloat \<Rightarrow> pyfloat \<Rightarrow> bool" where
  "fless NaN b = False"
| "fless a NaN = False"
| "fless (Fin a) (Fin b) = (a < b)"
| "fless (Fin a) PInf = True"
| "fless (Fin a) NInf = False"
| "fless NInf NInf = False"
| "fless NInf b = True"
| "fless PInf b = False"

text \<open>\<^verbatim>\<open>a / b\<close>: Python raises on a zero divisor, the other cases are IEEE's.\<close>

fun fdiv :: "pyfloat \<Rightarrow> pyfloat \<Rightarrow> error + pyfloat" where
  "fdiv a (Fin b) =
     (if b = 0 then Inl ZeroDivisionError
      else case a of
             Fin x \<Rightarrow> Inr (round_double (x / b))
           | PInf \<Rightarrow> Inr (if 0 < b then PInf else NInf)
           | NInf \<Rightarrow> Inr (if 0 < b then NInf else PInf)
           | NaN \<Rightarrow> Inr NaN)"
| "fdiv (Fin x) PInf = Inr (Fin 0)"
| "fdiv (Fin x) NInf = Inr (Fin 0)"
| "fdiv a b = Inr NaN"

text \<open>\<^verbatim>\<open>a * b\<close>: an overflow gives an infinity, it does not raise.\<close>

fun fmul :: "pyfloat \<Rightarrow> pyfloat \<Rightarrow> pyfloat" where
  "fmul (Fin a) (Fin b) = round_double (a * b)"
| "fmul NaN b = NaN"
| "fmul a NaN = NaN"
| "fmul (Fin a) PInf = (if a = 0 then NaN else if 0 < a then PInf else NInf)"
| "fmul (Fin a) NInf = (if a = 0 then NaN else if 0 < a then NInf else PInf)"
| "fmul PInf (Fin b) = (if b = 0 then NaN else if 0 < b then PInf else NInf)"
| "fmul NInf (Fin b) = (if b = 0 then NaN else if 0 < b then NInf else PInf)"
| "fmul PInf PInf = PInf"
| "fmul PInf NInf = NInf"
| "fmul NInf PInf = NInf"
| "fmul NInf NInf = PInf"

text \<open>
  \<^verbatim>\<open>int(x)\<close> truncates towards zero; it raises \<^verbatim>\<open>OverflowError\<close> on an infinity and
  \<^verbatim>\<open>ValueError\<close> on a NaN.
\<close>

fun py_int :: "pyfloat \<Rightarrow> error + int" where
  "py_int (Fin x) = Inr (if 0 \<le> x then \<lfloor>x\<rfloor> else \<lceil>x\<rceil>)"
| "py_int PInf = Inl OverflowError"
| "py_int NInf = Inl OverflowError"
| "py_int NaN = Inl ValueError"

text \<open>\<^verbatim>\<open>min(a, b)\<close> keeps \<open>a\<close> unless \<open>b < a\<close>; \<^verbatim>\<open>max(a, b)\<close> keeps \<open>a\<close> unless \<open>a < b\<close>.\<close>

definition py_min :: "pyfloat \<Rightarrow> pyfloat \<Rightarrow> pyfloat" where
  "py_min a b = (if fless b a then b else a)"

definition py_max :: "pyfloat \<Rightarrow> pyfloat \<Rightarrow> pyfloat" where
  "py_max a b = (if fless a b then b else a)"

text \<open>
  \<^verbatim>\<open>a or b\<close> on an optional float: \<^verbatim>\<open>None\<close> and zero are falsy, every other float
  (a NaN too) is truthy.
\<close>

definition float_or :: "pyfloat option \<Rightarrow> pyfloat \<Rightarrow> pyfloat" where
  "float_or a b = (case a of None \<Rightarrow> b | Some v \<Rightarrow> if v = Fin 0 then b else v)"

subsection \<open>Python datetimes\<close>

text \<open>
  A \<^verbatim>\<open>datetime\<close> holds its wall-clock fields, here as the number \<open>ticks\<close> of
  microseconds since 0001-01-01T00:00:00, and is naive (\<open>utcoffset\<close> is \<open>None\<close>) or aware
  (with its offset from UTC in microseconds). The fields range from year 1 to year 9999.
\<close>

datatype datetime = Datetime (utcoffset: "int option") (ticks: int)

definition MAXTICKS :: int where
  "MAXTICKS = 315537897600000000"

definition is_aware :: "datetime \<Rightarrow> bool" where
  "is_aware dt = (utcoffset dt \<noteq> None)"

text \<open>The value that comparisons look at: the UTC instant of an aware datetime.\<close>

definition instant :: "datetime \<Rightarrow> int" where
  "instant dt = (case utcoffset dt of None \<Rightarrow> ticks dt | Some off \<Rightarrow> ticks dt - off)"

text \<open>\<^verbatim>\<open>a < b\<close>: a naive and an aware datetime cannot be ordered.\<close>

definition dt_less :: "datetime \<Rightarrow> datetime \<Rightarrow> error + bool" where
  "dt_less a b = (if is_aware a = is_aware b then Inr (instant a < instant b) else Inl TypeError)"

text \<open>\<open>dt_leq a b\<close>: the Python comparison \<^verbatim>\<open>a <= b\<close> is defined and true.\<close>

definition dt_leq :: "datetime \<Rightarrow> datetime \<Rightarrow> bool" where
  "dt_leq a b = (is_aware a = is_aware b \<and> instant a \<le> instant b)"

definition minutes :: "int \<Rightarrow> int" where
  "minutes n = n * 60000000"

text \<open>
  \<^verbatim>\<open>timedelta(minutes=n)\<close>, in microseconds: the days of a \<^verbatim>\<open>timedelta\<close> are limited to
  999999999 in magnitude.
\<close>

definition timedelta_minutes :: "int \<Rightarrow> error + int" where
  "timedelta_minutes n =
     (if - 999999999 \<le> n div 1440 \<and> n div 1440 \<le> 999999999 then Inr (minutes n)
      else Inl OverflowError)"

text \<open>\<^verbatim>\<open>dt + delta\<close>: the fields of the result must be in range; the offset is kept.\<close>

definition dt_add :: "datetime \<Rightarrow> int \<Rightarrow> error + datetime" where
  "dt_add dt delta =
     (if 0 \<le> ticks dt + delta \<and> ticks dt + delta < MAXTICKS
      then Inr (Datetime (utcoffset dt) (ticks dt + delta))
      else Inl OverflowError)"

subsection \<open>schemas.py\<close>

datatype service_type = passenger | freight | maintenance

datatype status = scheduled | running | delayed | completed | cancelled

datatype incident_type = block | speed_restriction | weather | signal_failure | rolling_stock

record Section =
  s_id :: string
  s_name :: string
  length_km :: pyfloat
  single_track :: bool
  s_max_speed_kmh :: pyfloat
  crossing_loops :: "string list"

record Train =
  t_id :: string
  service_type :: service_type
  priority :: int
  length_m :: "int option"
  t_max_speed_kmh :: "pyfloat option"
  origin :: string
  destination :: string
  planned_departure :: datetime
  planned_arrival :: "datetime option"
  route :: "string list"
  status :: status

record Incident =
  i_id :: string
  i_type :: incident_type
  i_section_id :: "string option"
  start_time :: datetime
  end_time :: "datetime option"

record ScheduleLeg =
  train_id :: string
  section_id :: string
  enter_time :: datetime
  exit_time :: datetime
  meet_pass_at :: "string option"

text \<open>The objective dict always has exactly the two keys written by the scheduler.\<close>

record Objective =
  total_delay_min :: real
  throughput :: nat

record Schedule =
  scenario_id :: "string option"
  legs :: "ScheduleLeg list"
  objective :: Objective
  created_at :: datetime

text \<open>
  One element of \<^verbatim>\<open>overrides["fixed_enters"]\<close>: each of the three keys may be missing
  (\<open>None\<close>); the values are taken as the strings the f-string and
  \<^verbatim>\<open>fromisoformat\<close> receive.
\<close>

record FixedEnter =
  fe_train_id :: "string option"
  fe_section_id :: "string option"
  fe_enter_time :: "string option"

text \<open>
  The overrides dict, reduced to its one recognised key: \<open>None\<close> when
  \<^verbatim>\<open>"fixed_enters"\<close> is absent.
\<close>

type_synonym Overrides = "FixedEnter list option"

record Scenario =
  sc_id :: "string option"
  sc_name :: string
  description :: "string option"
  trains :: "Train list"
  incidents :: "Incident list"
  overrides :: Overrides
  created_by :: "string option"
  sc_created_at :: datetime

subsection \<open>main.py\<close>

definition SAFE_HEADWAY_MIN :: int where
  "SAFE_HEADWAY_MIN = 5"

text \<open>
  \<^verbatim>\<open>compute_run_time_minutes\<close>. The division cannot meet a zero divisor, the conversion
  to \<^verbatim>\<open>int\<close> raises when \<^verbatim>\<open>hours * 60\<close> is an infinity or a NaN.
\<close>

definition compute_run_time_minutes :: "Section \<Rightarrow> Train \<Rightarrow> error + int" where
  "compute_run_time_minutes section train =
     (let speed = py_min (s_max_speed_kmh section)
                         (float_or (t_max_speed_kmh train) (s_max_speed_kmh section))
      in ebind (fdiv (length_km section) (py_max speed (Fin 1))) (\<lambda>hours.
         ebind (py_int (fmul hours (Fin 60))) (\<lambda>n.
         Inr (max 1 n))))"

text \<open>The composite key \<^verbatim>\<open>f"{train_id}::{section_id}"\<close>.\<close>

definition override_key :: "string \<Rightarrow> string \<Rightarrow> string" where
  "override_key tid sid = tid @ ''::'' @ sid"

text \<open>
  The loop of \<^verbatim>\<open>parse_fixed_overrides\<close>. The \<^verbatim>\<open>try\<close> encloses the whole loop, so
  the first entry that raises (a missing key, a timestamp that does not parse) ends the
  loop and the table built so far is returned.
\<close>

fun parse_entries :: "(string \<Rightarrow> datetime option) \<Rightarrow> (string \<rightharpoonup> datetime) \<Rightarrow> FixedEnter list
    \<Rightarrow> (string \<rightharpoonup> datetime)" where
  "parse_entries fromisoformat fixed [] = fixed"
| "parse_entries fromisoformat fixed (entry # rest) =
     (case fe_train_id entry of
        None \<Rightarrow> fixed
      | Some tid \<Rightarrow>
          (case fe_section_id entry of
             None \<Rightarrow> fixed
           | Some sid \<Rightarrow>
               (case fe_enter_time entry of
                  None \<Rightarrow> fixed
                | Some str \<Rightarrow>
                    (case fromisoformat str of
                       None \<Rightarrow> fixed
                     | Some dt \<Rightarrow>
                         parse_entries fromisoformat (fixed(override_key tid sid \<mapsto> dt)) rest))))"

definition parse_fixed_overrides :: "(string \<Rightarrow> datetime option) \<Rightarrow> Overrides
    \<Rightarrow> (string \<rightharpoonup> datetime)" where
  "parse_fixed_overrides fromisoformat ov =
     parse_entries fromisoformat Map.empty (case ov of None \<Rightarrow> [] | Some es \<Rightarrow> es)"

text \<open>A dict comprehension: the pairs are stored in order, a later key overwrites.\<close>

definition dict_comp :: "('k \<times> 'v) list \<Rightarrow> ('k \<rightharpoonup> 'v)" where
  "dict_comp kvs = foldl (\<lambda>m kv. m(fst kv \<mapsto> snd kv)) Map.empty kvs"

definition sections_map :: "Section list \<Rightarrow> (string \<rightharpoonup> Section)" where
  "sections_map secs = dict_comp (map (\<lambda>s. (s_id s, s)) secs)"

text \<open>
  \<^verbatim>\<open>sorted(scenario.trains, key=lambda t: (-t.priority, t.planned_departure))\<close>. Two keys
  with the same priority are ordered by comparing the departures, which raises
  \<^verbatim>\<open>TypeError\<close> for a naive against an aware one. A sort that returns has compared every
  two elements that end up next to each other, so \<^verbatim>\<open>sorted\<close> raises exactly when two
  trains of one priority differ in awareness. Otherwise it is the stable sort by priority
  descending and then by the instant of the departure.
\<close>

definition incomparable :: "Train \<Rightarrow> Train \<Rightarrow> bool" where
  "incomparable t u =
     (priority t = priority u
      \<and> is_aware (planned_departure t) \<noteq> is_aware (planned_departure u))"

definition train_key :: "Train \<Rightarrow> int \<times> int" where
  "train_key t = (- priority t, instant (planned_departure t))"

definition trains_sorted :: "Train list \<Rightarrow> error + Train list" where
  "trains_sorted ts =
     (if list_ex (\<lambda>t. list_ex (incomparable t) ts) ts then Inl TypeError
      else Inr (sort_key train_key ts))"

text \<open>
  The headway rule of the loop body: on a single-track section with a recorded exit
  \<open>prev_exit\<close>, a candidate enter time before \<open>prev_exit + 5 min\<close> is moved to it. A
  \<^verbatim>\<open>datetime\<close> is always truthy, so \<^verbatim>\<open>if prev_exit and ...\<close> tests for \<^verbatim>\<open>None\<close> only.
  The sum can leave the range of \<^verbatim>\<open>datetime\<close> and the comparison can meet a naive and
  an aware operand.
\<close>

definition enforce_headway :: "Section \<Rightarrow> datetime option \<Rightarrow> datetime \<Rightarrow> error + datetime" where
  "enforce_headway sec prev_exit enter =
     (if single_track sec then
        (case prev_exit of
           None \<Rightarrow> Inr enter
         | Some p \<Rightarrow>
             ebind (timedelta_minutes SAFE_HEADWAY_MIN) (\<lambda>d.
             ebind (dt_add p d) (\<lambda>limit.
             ebind (dt_less enter limit) (\<lambda>shift.
             Inr (if shift then limit else enter)))))
      else Inr enter)"

text \<open>
  The body of the inner loop for one section id, on the state
  \<open>(legs, last_exit, current_time)\<close>, in the order of the statements: the lookup of the
  section, the run time, the candidate enter time, the headway, the exit time.
\<close>

definition section_step :: "(string \<rightharpoonup> Section) \<Rightarrow> (string \<rightharpoonup> datetime) \<Rightarrow> Train \<Rightarrow> string
    \<Rightarrow> ScheduleLeg list \<times> (string \<rightharpoonup> datetime) \<times> datetime
    \<Rightarrow> error + (ScheduleLeg list \<times> (string \<rightharpoonup> datetime) \<times> datetime)" where
  "section_step sm fixed_enters tr sec_id st =
     (case st of (lgs, last_exit, current_time) \<Rightarrow>
        (case sm sec_id of
           None \<Rightarrow> Inl (HTTPException 400 (''Unknown section '' @ sec_id))
         | Some sec \<Rightarrow>
             ebind (compute_run_time_minutes sec tr) (\<lambda>run_min.
             ebind (enforce_headway sec (last_exit sec_id)
                      (case fixed_enters (override_key (t_id tr) sec_id) of
                         None \<Rightarrow> current_time | Some t \<Rightarrow> t)) (\<lambda>enter.
             ebind (timedelta_minutes run_min) (\<lambda>d.
             ebind (dt_add enter d) (\<lambda>exit.
             Inr (lgs @ [\<lparr>train_id = t_id tr, section_id = sec_id, enter_time = enter,
                          exit_time = exit, meet_pass_at = None\<rparr>],
                  last_exit(sec_id \<mapsto> exit), exit)))))))"

fun route_loop :: "(string \<rightharpoonup> Section) \<Rightarrow> (string \<rightharpoonup> datetime) \<Rightarrow> Train \<Rightarrow> string list
    \<Rightarrow> ScheduleLeg list \<times> (string \<rightharpoonup> datetime) \<times> datetime
    \<Rightarrow> error + (ScheduleLeg list \<times> (string \<rightharpoonup> datetime) \<times> datetime)" where
  "route_loop sm fixed_enters tr [] st = Inr st"
| "route_loop sm fixed_enters tr (sec_id # rest) st =
     ebind (section_step sm fixed_enters tr sec_id st) (route_loop sm fixed_enters tr rest)"

text \<open>
  The outer loop over the sorted trains threads \<open>(legs, last_exit)\<close> and restarts
  \<open>current_time\<close> at the planned departure of each train.
\<close>

fun trains_loop :: "(string \<rightharpoonup> Section) \<Rightarrow> (string \<rightharpoonup> datetime) \<Rightarrow> Train list
    \<Rightarrow> ScheduleLeg list \<times> (string \<rightharpoonup> datetime)
    \<Rightarrow> error + (ScheduleLeg list \<times> (string \<rightharpoonup> datetime))" where
  "trains_loop sm fixed_enters [] st = Inr st"
| "trains_loop sm fixed_enters (tr # trs) (lgs, last_exit) =
     ebind (route_loop sm fixed_enters tr (route tr) (lgs, last_exit, planned_departure tr))
       (\<lambda>(lgs', last_exit', current_time). trains_loop sm fixed_enters trs (lgs', last_exit'))"

text \<open>\<^verbatim>\<open>{t.id: (t.route[-1] if t.route else None) for t in scenario.trains}\<close>\<close>

definition last_sections :: "Train list \<Rightarrow> (string \<rightharpoonup> string option)" where
  "last_sections ts =
     dict_comp (map (\<lambda>t. (t_id t, if route t \<noteq> [] then Some (last (route t)) else None)) ts)"

text \<open>\<^verbatim>\<open>d.get(k)\<close> on a dict whose values may be \<^verbatim>\<open>None\<close>.\<close>

definition dict_get :: "('k \<rightharpoonup> 'v option) \<Rightarrow> 'k \<Rightarrow> 'v option" where
  "dict_get d k = (case d k of None \<Rightarrow> None | Some v \<Rightarrow> v)"

text \<open>The set \<^verbatim>\<open>finished_trains\<close>, as the list of its distinct elements.\<close>

definition finished_trains :: "Train list \<Rightarrow> ScheduleLeg list \<Rightarrow> string list" where
  "finished_trains ts lgs =
     remdups (map train_id
       (filter (\<lambda>l. dict_get (last_sections ts) (train_id l) = Some (section_id l)) lgs))"

definition generate_feasible_schedule :: "Section list \<Rightarrow> datetime \<Rightarrow> (string \<Rightarrow> datetime option)
    \<Rightarrow> Scenario \<Rightarrow> error + Schedule" where
  "generate_feasible_schedule secs now fromisoformat scenario =
     (let sm = sections_map secs
      in ebind (trains_sorted (trains scenario)) (\<lambda>ts.
         let fixed_enters = parse_fixed_overrides fromisoformat (overrides scenario)
         in ebind (trains_loop sm fixed_enters ts ([], Map.empty)) (\<lambda>(lgs, last_exit).
            Inr \<lparr>scenario_id = sc_id scenario, legs = lgs,
                 objective = \<lparr>total_delay_min = 0,
                               throughput = length (finished_trains (trains scenario) lgs)\<rparr>,
                 created_at = now\<rparr>)))"




subsection \<open>The specification's variants\<close>

text \<open>
  The Run-Time Estimator in the specification's words, on the same floats: the train's
  limit counts whenever it is set.
\<close>

definition spec_run_time_minutes :: "Section \<Rightarrow> Train \<Rightarrow> error + int" where
  "spec_run_time_minutes section train =
     (let effective_speed = py_min (s_max_speed_kmh section)
            (case t_max_speed_kmh train of None \<Rightarrow> s_max_speed_kmh section | Some v \<Rightarrow> v)
      in ebind (fdiv (length_km section) (py_max effective_speed (Fin 1))) (\<lambda>hours.
         ebind (py_int (fmul hours (Fin 60))) (\<lambda>n.
         Inr (max 1 n))))"

text \<open>
  The Override Resolver in the specification's words: each entry is validated on its
  own, a malformed one is skipped and the loop goes on.
\<close>

fun spec_parse_entries :: "(string \<Rightarrow> datetime option) \<Rightarrow> (string \<rightharpoonup> datetime) \<Rightarrow> FixedEnter list
    \<Rightarrow> (string \<rightharpoonup> datetime)" where
  "spec_parse_entries fromisoformat fixed [] = fixed"
| "spec_parse_entries fromisoformat fixed (entry # rest) =
     (case (fe_train_id entry, fe_section_id entry, fe_enter_time entry) of
        (Some tid, Some sid, Some str) \<Rightarrow>
          (case fromisoformat str of
             None \<Rightarrow> spec_parse_entries fromisoformat fixed rest
           | Some dt \<Rightarrow> spec_parse_entries fromisoformat (fixed(override_key tid sid \<mapsto> dt)) rest)
      | _ \<Rightarrow> spec_parse_entries fromisoformat fixed rest)"

text \<open>
  The throughput in the specification's words: the number of distinct trains (a train is
  known by its id) whose last emitted leg is on the last section of their route. The legs
  of a train are those that carry its id.
\<close>

definition own_legs :: "Train \<Rightarrow> ScheduleLeg list \<Rightarrow> ScheduleLeg list" where
  "own_legs t lgs = filter (\<lambda>l. train_id l = t_id t) lgs"

definition completed_route :: "Train \<Rightarrow> ScheduleLeg list \<Rightarrow> bool" where
  "completed_route t lgs =
     (route t \<noteq> [] \<and> own_legs t lgs \<noteq> [] \<and> section_id (last (own_legs t lgs)) = last (route t))"

definition spec_throughput :: "Train list \<Rightarrow> ScheduleLeg list \<Rightarrow> nat" where
  "spec_throughput ts lgs = length (remdups (map t_id (filter (\<lambda>t. completed_route t lgs) ts)))"

subsection \<open>Predicates of the proofs\<close>

text \<open>
  \<open>separated a d b\<close>: the Python comparison \<^verbatim>\<open>b >= a + d\<close> of two datetimes is defined and
  true (stated on the instants, so that it does not depend on \<^verbatim>\<open>a + d\<close> being in range).
\<close>

definition separated :: "datetime \<Rightarrow> int \<Rightarrow> datetime \<Rightarrow> bool" where
  "separated a d b = (is_aware a = is_aware b \<and> instant a + d \<le> instant b)"

text \<open>
  What one pass of the loop body guarantees about the leg \<open>n\<close> it appends, from the state
  \<open>(last_exit, current_time)\<close> it started in.
\<close>

definition leg_ok :: "(string \<rightharpoonup> Section) \<Rightarrow> (string \<rightharpoonup> datetime) \<Rightarrow> Train \<Rightarrow> string
    \<Rightarrow> (string \<rightharpoonup> datetime) \<Rightarrow> datetime \<Rightarrow> ScheduleLeg \<Rightarrow> bool" where
  "leg_ok sm fx tr sid le cur n =
     (train_id n = t_id tr \<and> section_id n = sid
      \<and> is_aware (exit_time n) = is_aware (enter_time n)
      \<and> instant (enter_time n) < instant (exit_time n)
      \<and> dt_leq (case fx (override_key (t_id tr) sid) of None \<Rightarrow> cur | Some t \<Rightarrow> t) (enter_time n)
      \<and> (\<forall>sec e. sm sid = Some sec \<longrightarrow> single_track sec \<longrightarrow> le sid = Some e \<longrightarrow>
            separated e (minutes SAFE_HEADWAY_MIN) (enter_time n)))"

text \<open>Two legs, the first committed before the second, keep the headway.\<close>

definition headway_rel :: "(string \<rightharpoonup> Section) \<Rightarrow> ScheduleLeg \<Rightarrow> ScheduleLeg \<Rightarrow> bool" where
  "headway_rel sm a b =
     (section_id a = section_id b \<longrightarrow>
      (\<forall>sec. sm (section_id a) = Some sec \<longrightarrow> single_track sec \<longrightarrow>
         separated (exit_time a) (minutes SAFE_HEADWAY_MIN) (enter_time b)))"

text \<open>The table \<open>last_exit\<close> bounds the exit of every leg on a single-track section.\<close>

definition exits_recorded :: "(string \<rightharpoonup> Section) \<Rightarrow> ScheduleLeg list \<Rightarrow> (string \<rightharpoonup> datetime)
    \<Rightarrow> bool" where
  "exits_recorded sm lgs last_exit =
     (\<forall>l \<in> set lgs. \<forall>sec. sm (section_id l) = Some sec \<longrightarrow> single_track sec \<longrightarrow>
        (\<exists>e. last_exit (section_id l) = Some e \<and> separated (exit_time l) 0 e))"

definition headway_inv :: "(string \<rightharpoonup> Section) \<Rightarrow> ScheduleLeg list \<Rightarrow> (string \<rightharpoonup> datetime)
    \<Rightarrow> bool" where
  "headway_inv sm lgs last_exit =
     (sorted_wrt (headway_rel sm) lgs \<and> exits_recorded sm lgs last_exit)"

text \<open>
  The legs of one train, in route order: each enters no earlier than its candidate, which
  is the override when there is one and the exit of the leg before otherwise.
\<close>

primrec chain_ok :: "(string \<rightharpoonup> datetime) \<Rightarrow> string \<Rightarrow> datetime \<Rightarrow> ScheduleLeg list \<Rightarrow> bool" where
  "chain_ok fx tid cur [] = True"
| "chain_ok fx tid cur (l # ls) =
     (dt_leq (case fx (override_key tid (section_id l)) of None \<Rightarrow> cur | Some t \<Rightarrow> t)
        (enter_time l)
      \<and> chain_ok fx tid (exit_time l) ls)"

definition block_ok :: "(string \<rightharpoonup> datetime) \<Rightarrow> Train \<Rightarrow> ScheduleLeg list \<Rightarrow> bool" where
  "block_ok fx tr b =
     (map section_id b = route tr \<and> map train_id b = map (\<lambda>s. t_id tr) (route tr)
      \<and> chain_ok fx (t_id tr) (planned_departure tr) b)"

definition last_of_route :: "Train \<Rightarrow> string option" where
  "last_of_route t = (if route t \<noteq> [] then Some (last (route t)) else None)"

text \<open>The errors of Python's arithmetic and comparisons, as opposed to the HTTP error.\<close>

definition python_error :: "error \<Rightarrow> bool" where
  "python_error e = (e = TypeError \<or> e = OverflowError \<or> e = ValueError)"

subsection \<open>Concrete inputs\<close>

text \<open>Two of the seeded default sections of \<^verbatim>\<open>get_domain_sections\<close>, and a third one.\<close>

definition S1 :: Section where
  "S1 = \<lparr>s_id = ''S1'', s_name = ''Alpha-Loop'', length_km = Fin 10, single_track = True,
          s_max_speed_kmh = Fin 110, crossing_loops = [''A'']\<rparr>"

definition S2 :: Section where
  "S2 = \<lparr>s_id = ''S2'', s_name = ''Beta-Plain'', length_km = Fin 18, single_track = True,
          s_max_speed_kmh = Fin 120, crossing_loops = [''B'']\<rparr>"

definition S3 :: Section where
  "S3 = \<lparr>s_id = ''S3'', s_name = ''Gamma-Hill'', length_km = Fin 12, single_track = True,
          s_max_speed_kmh = Fin 90, crossing_loops = [''C'']\<rparr>"

text \<open>The naive datetime \<open>n\<close> minutes after 1970-01-01T00:00:00.\<close>

definition at_minute :: "int \<Rightarrow> datetime" where
  "at_minute n = Datetime None (62135596800000000 + minutes n)"

text \<open>The aware datetime 1970-01-01T00:00:00+00:00.\<close>

definition utc_midnight :: datetime where
  "utc_midnight = Datetime (Some 0) 62135596800000000"

text \<open>The naive datetime 9999-12-31T23:58:00, two minutes before the end of the range.\<close>

definition last_minutes :: datetime where
  "last_minutes = Datetime None (MAXTICKS - minutes 2)"

definition mk_train :: "string \<Rightarrow> int \<Rightarrow> datetime \<Rightarrow> string list \<Rightarrow> Train" where
  "mk_train i p d r = \<lparr>t_id = i, service_type = passenger, priority = p, length_m = None,
      t_max_speed_kmh = None, origin = ''O'', destination = ''D'', planned_departure = d,
      planned_arrival = None, route = r, status = scheduled\<rparr>"

definition mk_scenario :: "Train list \<Rightarrow> Overrides \<Rightarrow> Scenario" where
  "mk_scenario ts ov = \<lparr>sc_id = None, sc_name = ''demo'', description = None, trains = ts,
      incidents = [], overrides = ov, created_by = None, sc_created_at = at_minute 0\<rparr>"

text \<open>
  A stand-in for \<^verbatim>\<open>datetime.fromisoformat\<close> that agrees with it on the one timestamp
  the examples use and rejects every other string.
\<close>

definition iso0 :: "string \<Rightarrow> datetime option" where
  "iso0 s = (if s = ''1970-01-01T00:00:00'' then Some (at_minute 0) else None)"

definition bad_entry :: FixedEnter where
  "bad_entry = \<lparr>fe_train_id = None, fe_section_id = Some ''S1'',
                 fe_enter_time = Some ''1970-01-01T00:00:00''\<rparr>"

definition good_entry :: FixedEnter where
  "good_entry = \<lparr>fe_train_id = Some ''A'', fe_section_id = Some ''S1'',
                  fe_enter_time = Some ''1970-01-01T00:00:00''\<rparr>"

text \<open>Train A with its own speed limit given as \<open>v\<close>.\<close>

definition speed_train :: "pyfloat \<Rightarrow> Train" where
  "speed_train v = (mk_train ''A'' 8 (at_minute 0) [''S1''])\<lparr>t_max_speed_kmh := Some v\<rparr>"

definition mk_leg :: "string \<Rightarrow> string \<Rightarrow> datetime \<Rightarrow> datetime \<Rightarrow> ScheduleLeg" where
  "mk_leg tid sid enter exit = \<lparr>train_id = tid, section_id = sid, enter_time = enter,
      exit_time = exit, meet_pass_at = None\<rparr>"

definition mk_schedule :: "ScheduleLeg list \<Rightarrow> nat \<Rightarrow> Schedule" where
  "mk_schedule lgs n = \<lparr>scenario_id = None, legs = lgs,
      objective = \<lparr>total_delay_min = 0, throughput = n\<rparr>, created_at = at_minute 7\<rparr>"

text \<open>
  Train B (priority 5) is listed before train A (priority 8); both leave at minute 0.
  A runs S1 in 5 minutes and S2 in 9; B waits for A's exit from S1 plus the headway.
\<close>

definition demo_scenario :: Scenario where
  "demo_scenario = mk_scenario
     [mk_train ''B'' 5 (at_minute 0) [''S1''], mk_train ''A'' 8 (at_minute 0) [''S1'', ''S2'']] None"

definition demo_schedule :: Schedule where
  "demo_schedule = mk_schedule
     [mk_leg ''A'' ''S1'' (at_minute 0) (at_minute 5), mk_leg ''A'' ''S2'' (at_minute 5) (at_minute 14),
      mk_leg ''B'' ''S1'' (at_minute 10) (at_minute 15)] 2"

text \<open>
  The same trains in a scenario that differs in its name, description, author and
  creation time.
\<close>

definition renamed_scenario :: Scenario where
  "renamed_scenario = demo_scenario\<lparr>sc_name := ''other'', description := Some ''copy'',
      created_by := Some ''controller'', sc_created_at := at_minute 3\<rparr>"

text \<open>Train A with a fixed enter time for S2 that lies before its exit from S1.\<close>

definition override_scenario :: Scenario where
  "override_scenario = mk_scenario [mk_train ''A'' 8 (at_minute 0) [''S1'', ''S2'']]
     (Some [\<lparr>fe_train_id = Some ''A'', fe_section_id = Some ''S2'',
             fe_enter_time = Some ''1970-01-01T00:00:00''\<rparr>])"

definition override_schedule :: Schedule where
  "override_schedule = mk_schedule
     [mk_leg ''A'' ''S1'' (at_minute 0) (at_minute 5), mk_leg ''A'' ''S2'' (at_minute 0) (at_minute 9)] 1"

text \<open>Train C's route names S9, which the directory does not have.\<close>

definition unknown_train :: Train where
  "unknown_train = mk_train ''C'' 5 (at_minute 0) [''S1'', ''S9'']"

definition unknown_scenario :: Scenario where
  "unknown_scenario = mk_scenario [mk_train ''A'' 8 (at_minute 0) [''S1''], unknown_train] None"

text \<open>The same route, leaving two minutes before the end of the range of datetimes.\<close>

definition late_unknown_scenario :: Scenario where
  "late_unknown_scenario = mk_scenario [mk_train ''C'' 5 last_minutes [''S1'', ''S9'']] None"

text \<open>Two trains with the same id, the second with an empty route.\<close>

definition dup_train_a :: Train where
  "dup_train_a = mk_train ''X'' 5 (at_minute 0) [''S1'']"

definition dup_train_b :: Train where
  "dup_train_b = mk_train ''X'' 5 (at_minute 0) []"

definition dup_scenario :: Scenario where
  "dup_scenario = mk_scenario [dup_train_a, dup_train_b] None"

definition dup_schedule :: Schedule where
  "dup_schedule = mk_schedule [mk_leg ''X'' ''S1'' (at_minute 0) (at_minute 5)] 0"

text \<open>A train with an empty route, of the highest priority, before train A.\<close>

definition empty_route_scenario :: Scenario where
  "empty_route_scenario = mk_scenario
     [mk_train ''E'' 9 (at_minute 0) [], mk_train ''A'' 8 (at_minute 0) [''S1'']] None"

definition empty_route_schedule :: Schedule where
  "empty_route_schedule = mk_schedule [mk_leg ''A'' ''S1'' (at_minute 0) (at_minute 5)] 1"

text \<open>
  A train with an empty route and an aware departure, of the same priority as train A,
  whose departure is naive.
\<close>

definition aware_empty_scenario :: Scenario where
  "aware_empty_scenario = mk_scenario
     [mk_train ''E'' 8 utc_midnight [], mk_train ''A'' 8 (at_minute 0) [''S1'']] None"


section \<open>Python's primitives\<close>

lemma ebind_Inr [simp]: "ebind (Inr x) f = f x"
  by (simp add: ebind_def)

lemma ebind_Inl [simp]: "ebind (Inl e) f = Inl e"
  by (simp add: ebind_def)

lemma ebind_eq_Inr: "ebind m f = Inr y \<longleftrightarrow> (\<exists>x. m = Inr x \<and> f x = Inr y)"
  by (cases m) simp_all

lemma ebind_eq_Inl: "ebind m f = Inl e \<longleftrightarrow> m = Inl e \<or> (\<exists>x. m = Inr x \<and> f x = Inl e)"
  by (cases m) simp_all

lemma timedelta_minutes_Inr: "timedelta_minutes n = Inr d \<Longrightarrow> d = minutes n"
  by (simp add: timedelta_minutes_def split: if_splits)

lemma timedelta_minutes_Inl: "timedelta_minutes n = Inl e \<Longrightarrow> e = OverflowError"
  by (simp add: timedelta_minutes_def split: if_splits)

lemma timedelta_headway [simp]:
  "timedelta_minutes SAFE_HEADWAY_MIN = Inr (minutes SAFE_HEADWAY_MIN)"
  by (simp add: timedelta_minutes_def SAFE_HEADWAY_MIN_def)

lemma dt_add_Inr:
  "dt_add a d = Inr b \<Longrightarrow> utcoffset b = utcoffset a \<and> ticks b = ticks a + d"
  by (auto simp: dt_add_def split: if_splits)

lemma dt_add_Inl: "dt_add a d = Inl e \<Longrightarrow> e = OverflowError"
  by (simp add: dt_add_def split: if_splits)

lemma dt_add_instant:
  "dt_add a d = Inr b \<Longrightarrow> is_aware b = is_aware a \<and> instant b = instant a + d"
  by (auto simp: is_aware_def instant_def dest!: dt_add_Inr split: option.splits)

lemma dt_less_Inr:
  "dt_less a b = Inr r \<Longrightarrow> is_aware a = is_aware b \<and> r = (instant a < instant b)"
  by (auto simp: dt_less_def split: if_splits)

lemma dt_less_Inl: "dt_less a b = Inl e \<Longrightarrow> e = TypeError"
  by (simp add: dt_less_def split: if_splits)

lemma dt_leq_refl [simp]: "dt_leq a a"
  by (simp add: dt_leq_def)

section \<open>Run-Time Estimator\<close>

lemma py_max_one_nonzero: "py_max a (Fin 1) \<noteq> Fin 0"
  by (cases a) (auto simp: py_max_def)

lemma fdiv_Inl: "fdiv a b = Inl e \<Longrightarrow> b = Fin 0"
  by (cases "(a, b)" rule: fdiv.cases) (auto split: if_splits pyfloat.splits)

lemma py_int_Inl: "py_int x = Inl e \<Longrightarrow> e = OverflowError \<or> e = ValueError"
  by (cases x) auto

lemma run_time_pos: "compute_run_time_minutes sec tr = Inr n \<Longrightarrow> 1 \<le> n"
  unfolding compute_run_time_minutes_def Let_def by (auto simp: ebind_eq_Inr)

lemma run_time_error:
  "compute_run_time_minutes sec tr = Inl e \<Longrightarrow> e = OverflowError \<or> e = ValueError"
  unfolding compute_run_time_minutes_def Let_def
  by (auto simp: ebind_eq_Inl py_max_one_nonzero dest: fdiv_Inl py_int_Inl)

text \<open>The doubles that the concrete inputs meet.\<close>

lemma round_double_10_110:
  "round_double (1 / 11) = Fin (3275345183542179 / 36028797018963968)"
  unfolding round_double_def Let_def
  by (simp add: exponent_def round_half_even_def power_int_minus_divide exp2_up.simps
      exp2_down.simps)

lemma round_double_S1_minutes:
  "round_double (49130177753132685 / 9007199254740992)
     = Fin (3070636109570793 / 562949953421312)"
  unfolding round_double_def Let_def
  by (simp add: exponent_def round_half_even_def power_int_minus_divide exp2_up.simps
      exp2_down.simps)

lemma round_double_18_120:
  "round_double (3 / 20) = Fin (5404319552844595 / 36028797018963968)"
  unfolding round_double_def Let_def
  by (simp add: exponent_def round_half_even_def power_int_minus_divide exp2_up.simps
      exp2_down.simps)

lemma round_double_S2_minutes:
  "round_double (81064793292668925 / 9007199254740992) = Fin 9"
  unfolding round_double_def Let_def
  by (simp add: exponent_def round_half_even_def power_int_minus_divide exp2_up.simps
      exp2_down.simps)

lemma S1_run_time [simp]: "compute_run_time_minutes S1 (mk_train i p d r) = Inr 5"
  by (simp add: compute_run_time_minutes_def S1_def mk_train_def float_or_def py_min_def
      py_max_def round_double_10_110 round_double_S1_minutes)

lemma S2_run_time [simp]: "compute_run_time_minutes S2 (mk_train i p d r) = Inr 9"
  by (simp add: compute_run_time_minutes_def S2_def mk_train_def float_or_def py_min_def
      py_max_def round_double_18_120 round_double_S2_minutes)

lemma round_double_10: "round_double 10 = Fin 10"
  unfolding round_double_def Let_def
  by (simp add: exponent_def round_half_even_def power_int_minus_divide exp2_up.simps
      exp2_down.simps)

lemma round_double_600: "round_double 600 = Fin 600"
  unfolding round_double_def Let_def
  by (simp add: exponent_def round_half_even_def power_int_minus_divide exp2_up.simps
      exp2_down.simps)

lemma round_double_41_20:
  "round_double (41 / 20) = Fin (2308094809027379 / 1125899906842624)"
  unfolding round_double_def Let_def
  by (simp add: exponent_def round_half_even_def power_int_minus_divide exp2_up.simps
      exp2_down.simps)

lemma round_double_41_20_minutes:
  "round_double (34621422135410685 / 281474976710656)
     = Fin (8655355533852671 / 70368744177664)"
  unfolding round_double_def Let_def
  by (simp add: exponent_def round_half_even_def power_int_minus_divide exp2_up.simps
      exp2_down.simps)

text \<open>
  The result is the truncation of the rounded product, which can be below the floor of
  the exact quotient: 41 km at 20 km/h are 123 minutes, and the code returns 122.
\<close>

lemma run_time_rounds_down:
  "compute_run_time_minutes (S1\<lparr>length_km := Fin 41\<rparr>) (speed_train (Fin 20)) = Inr 122"
  by (simp add: compute_run_time_minutes_def S1_def speed_train_def mk_train_def float_or_def
      py_min_def py_max_def round_double_41_20 round_double_41_20_minutes)

text \<open>The conversion to \<^verbatim>\<open>int\<close> raises on a section of infinite length.\<close>

lemma run_time_overflow:
  "compute_run_time_minutes (S1\<lparr>length_km := PInf\<rparr>) (mk_train i p d r) = Inl OverflowError"
  by (simp add: compute_run_time_minutes_def S1_def mk_train_def float_or_def py_min_def
      py_max_def)

text \<open>
  Claim C4 at a failing input: section S1 (10 km, 110 km/h, both within the declared
  bounds) and a train whose \<^verbatim>\<open>max_speed_kmh\<close> is set to 0. The expression
  \<^verbatim>\<open>train.max_speed_kmh or section.max_speed_kmh\<close> takes the zero for an unset value, so
  the code runs the train at the section's 110 km/h and returns 5 minutes, where the
  specified formula divides by \<open>max(min(110, 0), 1) = 1\<close> and gives 600. The guard
  \<^verbatim>\<open>max(speed, 1)\<close> of the code does treat the other speeds below 1 km/h that way: for
  \<open>-5\<close> and for \<open>0.5\<close> the code returns 600.
\<close>

theorem run_time_zero_speed_taken_as_unset:
  "t_max_speed_kmh (speed_train (Fin 0)) = Some (Fin 0)
   \<and> compute_run_time_minutes S1 (speed_train (Fin 0)) = Inr 5
   \<and> spec_run_time_minutes S1 (speed_train (Fin 0)) = Inr 600
   \<and> compute_run_time_minutes S1 (speed_train (Fin (- 5))) = Inr 600
   \<and> compute_run_time_minutes S1 (speed_train (Fin (1 / 2))) = Inr 600"
  by (simp add: compute_run_time_minutes_def spec_run_time_minutes_def S1_def speed_train_def
      mk_train_def float_or_def py_min_def py_max_def round_double_10_110
      round_double_S1_minutes round_double_10 round_double_600)

section \<open>Override Resolver\<close>

text \<open>
  Claim C2 at a failing input: the overrides hold a malformed entry (no
  \<^verbatim>\<open>train_id\<close>) followed by a well-formed one for train A on S1. The code returns a
  table without the well-formed entry, where entry-by-entry validation keeps it.
\<close>

theorem parse_fixed_overrides_drops_later_entry:
  "parse_fixed_overrides iso0 (Some [bad_entry, good_entry]) (override_key ''A'' ''S1'') = None
   \<and> spec_parse_entries iso0 Map.empty [bad_entry, good_entry] (override_key ''A'' ''S1'')
       = Some (at_minute 0)"
  by (simp add: parse_fixed_overrides_def bad_entry_def good_entry_def iso0_def override_key_def)

section \<open>Evaluation of the concrete inputs\<close>

lemma mk_train_fields [simp]:
  "t_id (mk_train i p d r) = i" "priority (mk_train i p d r) = p"
  "planned_departure (mk_train i p d r) = d" "route (mk_train i p d r) = r"
  by (simp_all add: mk_train_def)

lemma section_fields [simp]:
  "s_id S1 = ''S1''" "single_track S1" "s_id S2 = ''S2''" "single_track S2"
  "s_id S3 = ''S3''" "single_track S3"
  by (simp_all add: S1_def S2_def S3_def)

lemmas eval_defs =
  generate_feasible_schedule_def sections_map_def dict_comp_def trains_sorted_def
  incomparable_def train_key_def is_aware_def instant_def parse_fixed_overrides_def
  mk_scenario_def mk_leg_def mk_schedule_def section_step_def enforce_headway_def dt_add_def
  dt_less_def timedelta_minutes_def minutes_def SAFE_HEADWAY_MIN_def MAXTICKS_def
  at_minute_def override_key_def finished_trains_def last_sections_def dict_get_def iso0_def

lemma demo_run:
  "generate_feasible_schedule [S1, S2] (at_minute 7) iso0 demo_scenario = Inr demo_schedule"
  by (simp add: demo_scenario_def demo_schedule_def eval_defs)

lemma renamed_run:
  "generate_feasible_schedule [S1, S2, S3] (at_minute 8) iso0 renamed_scenario
     = Inr (demo_schedule\<lparr>created_at := at_minute 8\<rparr>)"
  by (simp add: renamed_scenario_def demo_scenario_def demo_schedule_def eval_defs)

lemma override_run:
  "generate_feasible_schedule [S1, S2] (at_minute 7) iso0 override_scenario = Inr override_schedule"
  by (simp add: override_scenario_def override_schedule_def eval_defs)

lemma unknown_run:
  "generate_feasible_schedule [S1, S2] (at_minute 7) iso0 unknown_scenario
     = Inl (HTTPException 400 ''Unknown section S9'')"
  by (simp add: unknown_scenario_def unknown_train_def eval_defs)

lemma late_unknown_run:
  "generate_feasible_schedule [S1, S2] (at_minute 7) iso0 late_unknown_scenario
     = Inl OverflowError"
  by (simp add: late_unknown_scenario_def last_minutes_def eval_defs)

lemma dup_run:
  "generate_feasible_schedule [S1, S2] (at_minute 7) iso0 dup_scenario = Inr dup_schedule"
  by (simp add: dup_scenario_def dup_schedule_def dup_train_a_def dup_train_b_def eval_defs)

lemma empty_route_run:
  "generate_feasible_schedule [S1, S2] (at_minute 7) iso0 empty_route_scenario
     = Inr empty_route_schedule"
  by (simp add: empty_route_scenario_def empty_route_schedule_def eval_defs)

lemma empty_route_filtered_run:
  "generate_feasible_schedule [S1, S2] (at_minute 7) iso0
     (empty_route_scenario\<lparr>trains := filter (\<lambda>t. route t \<noteq> []) (trains empty_route_scenario)\<rparr>)
   = Inr empty_route_schedule"
  by (simp add: empty_route_scenario_def empty_route_schedule_def eval_defs)

lemma aware_empty_run:
  "generate_feasible_schedule [S1, S2] (at_minute 7) iso0 aware_empty_scenario = Inl TypeError"
  by (simp add: aware_empty_scenario_def utc_midnight_def eval_defs)

lemma aware_empty_filtered_run:
  "generate_feasible_schedule [S1, S2] (at_minute 7) iso0
     (aware_empty_scenario\<lparr>trains := filter (\<lambda>t. route t \<noteq> []) (trains aware_empty_scenario)\<rparr>)
   = Inr empty_route_schedule"
  by (simp add: aware_empty_scenario_def utc_midnight_def empty_route_schedule_def eval_defs)

section \<open>The loops of the Sequencer\<close>

lemma headway_nonneg: "0 \<le> minutes SAFE_HEADWAY_MIN"
  by (simp add: minutes_def SAFE_HEADWAY_MIN_def)

lemma enforce_headway_Inr:
  assumes "enforce_headway sec p cand = Inr enter"
  shows "dt_leq cand enter"
    and "single_track sec \<Longrightarrow> p = Some e \<Longrightarrow> separated e (minutes SAFE_HEADWAY_MIN) enter"
proof -
  show "dt_leq cand enter"
    using assms unfolding enforce_headway_def
    by (auto simp: ebind_eq_Inr dt_leq_def split: if_splits option.splits
        dest!: dt_less_Inr dt_add_instant)
  show "separated e (minutes SAFE_HEADWAY_MIN) enter" if "single_track sec" "p = Some e"
    using assms that unfolding enforce_headway_def
    by (auto simp: ebind_eq_Inr separated_def split: if_splits
        dest!: dt_less_Inr dt_add_instant)
qed

lemma enforce_headway_Inl:
  "enforce_headway sec p cand = Inl e \<Longrightarrow> e = OverflowError \<or> e = TypeError"
  unfolding enforce_headway_def
  by (auto simp: ebind_eq_Inl split: if_splits option.splits dest: dt_add_Inl dt_less_Inl)

text \<open>One pass of the loop body that does not raise appends one leg.\<close>

lemma section_step_Inr:
  assumes "section_step sm fx tr sid (lgs, le, cur) = Inr st'"
  shows "\<exists>n. st' = (lgs @ [n], le(sid \<mapsto> exit_time n), exit_time n)
           \<and> leg_ok sm fx tr sid le cur n \<and> sm sid \<noteq> None"
proof -
  let ?cand = "case fx (override_key (t_id tr) sid) of None \<Rightarrow> cur | Some t \<Rightarrow> t"
  from assms obtain sec where sec: "sm sid = Some sec"
    by (auto simp: section_step_def split: option.splits)
  from assms sec obtain run_min enter d exit where
    run: "compute_run_time_minutes sec tr = Inr run_min"
    and ent: "enforce_headway sec (le sid) ?cand = Inr enter"
    and td: "timedelta_minutes run_min = Inr d"
    and ex: "dt_add enter d = Inr exit"
    and st': "st' = (lgs @ [\<lparr>train_id = t_id tr, section_id = sid, enter_time = enter,
                          exit_time = exit, meet_pass_at = None\<rparr>],
                  le(sid \<mapsto> exit), exit)"
    by (auto simp: section_step_def ebind_eq_Inr)
  let ?n = "\<lparr>train_id = t_id tr, section_id = sid, enter_time = enter,
             exit_time = exit, meet_pass_at = None\<rparr>"
  from run_time_pos [OF run] timedelta_minutes_Inr [OF td] have "0 < d"
    by (simp add: minutes_def)
  with dt_add_instant [OF ex] have a: "is_aware exit = is_aware enter"
    and b: "instant enter < instant exit" by simp_all
  have "leg_ok sm fx tr sid le cur ?n"
    unfolding leg_ok_def using a b enforce_headway_Inr [OF ent] sec by simp
  with st' sec have "st' = (lgs @ [?n], le(sid \<mapsto> exit_time ?n), exit_time ?n)
      \<and> leg_ok sm fx tr sid le cur ?n \<and> sm sid \<noteq> None" by simp
  then show ?thesis by (rule exI [of _ ?n])
qed

lemma section_step_Inl:
  assumes "section_step sm fx tr sid st = Inl e"
  shows "(sm sid = None \<and> e = HTTPException 400 (''Unknown section '' @ sid)) \<or> python_error e"
proof (cases "sm sid")
  case None
  with assms show ?thesis by (simp add: section_step_def split: prod.splits)
next
  case (Some sec)
  obtain lgs le cur where st: "st = (lgs, le, cur)" by (cases st) auto
  from assms Some st have "python_error e"
    unfolding section_step_def python_error_def
    by (auto simp: ebind_eq_Inl
        dest: run_time_error enforce_headway_Inl timedelta_minutes_Inl dt_add_Inl)
  then show ?thesis ..
qed

lemma section_step_unknown:
  "sm sid = None \<Longrightarrow>
   section_step sm fx tr sid st = Inl (HTTPException 400 (''Unknown section '' @ sid))"
  by (simp add: section_step_def split: prod.splits)

text \<open>The loop body reads the directory at the section id only.\<close>

lemma section_step_cong:
  "sm sid = sm' sid \<Longrightarrow> section_step sm fx tr sid st = section_step sm' fx tr sid st"
  by (simp add: section_step_def)

lemma generate_Inr:
  "generate_feasible_schedule secs now fromiso sc = Inr sched \<Longrightarrow>
   \<exists>ts le. trains_sorted (trains sc) = Inr ts
      \<and> trains_loop (sections_map secs) (parse_fixed_overrides fromiso (overrides sc))
          ts ([], Map.empty) = Inr (legs sched, le)
      \<and> throughput (objective sched) = length (finished_trains (trains sc) (legs sched))
      \<and> total_delay_min (objective sched) = 0
      \<and> scenario_id sched = sc_id sc \<and> created_at sched = now"
  unfolding generate_feasible_schedule_def Let_def
  by (auto simp: ebind_eq_Inr)

lemma trains_loop_Cons_Inr:
  "trains_loop sm fx (tr # trs) (lgs, le) = Inr (lgs', le') \<Longrightarrow>
   \<exists>l1 e1 c1. route_loop sm fx tr (route tr) (lgs, le, planned_departure tr) = Inr (l1, e1, c1)
      \<and> trains_loop sm fx trs (l1, e1) = Inr (lgs', le')"
  by (auto simp: ebind_eq_Inr)

section \<open>Headway on single-track sections\<close>

text \<open>One pass of the loop body keeps the invariant.\<close>

lemma headway_inv_step:
  assumes inv: "headway_inv sm lgs le" and ok: "leg_ok sm fx tr sid le cur n"
  shows "headway_inv sm (lgs @ [n]) (le(sid \<mapsto> exit_time n))"
proof -
  have rec: "exits_recorded sm lgs le" and srt: "sorted_wrt (headway_rel sm) lgs"
    using inv by (simp_all add: headway_inv_def)
  from ok have sidn: "section_id n = sid" and aw: "is_aware (exit_time n) = is_aware (enter_time n)"
    and lt: "instant (enter_time n) < instant (exit_time n)"
    and hw: "\<And>sec e. sm sid = Some sec \<Longrightarrow> single_track sec \<Longrightarrow> le sid = Some e \<Longrightarrow>
               separated e (minutes SAFE_HEADWAY_MIN) (enter_time n)"
    by (simp_all add: leg_ok_def)
  have old: "separated (exit_time l) (minutes SAFE_HEADWAY_MIN) (enter_time n)"
    if "l \<in> set lgs" "section_id l = sid" "sm sid = Some sec" "single_track sec" for l sec
  proof -
    from rec that obtain e where e: "le sid = Some e" "separated (exit_time l) 0 e"
      unfolding exits_recorded_def by blast
    from hw [OF that(3,4) e(1)] e(2) show ?thesis by (simp add: separated_def)
  qed
  have "headway_rel sm l n" if "l \<in> set lgs" for l
    using old [OF that] sidn by (auto simp: headway_rel_def)
  with srt have s': "sorted_wrt (headway_rel sm) (lgs @ [n])"
    by (simp add: sorted_wrt_append)
  have r': "exits_recorded sm (lgs @ [n]) (le(sid \<mapsto> exit_time n))"
    unfolding exits_recorded_def
  proof (intro ballI allI impI)
    fix l sec' assume l: "l \<in> set (lgs @ [n])" and s: "sm (section_id l) = Some sec'"
      and st: "single_track sec'"
    show "\<exists>e. (le(sid \<mapsto> exit_time n)) (section_id l) = Some e \<and> separated (exit_time l) 0 e"
    proof (cases "l \<in> set lgs")
      case True
      show ?thesis
      proof (cases "section_id l = sid")
        case same: True
        from old [OF True same] s st same
        have "separated (exit_time l) (minutes SAFE_HEADWAY_MIN) (enter_time n)" by simp
        with headway_nonneg aw lt have "separated (exit_time l) 0 (exit_time n)"
          by (simp add: separated_def)
        with same show ?thesis by simp
      next
        case False
        with rec True s st show ?thesis unfolding exits_recorded_def by auto
      qed
    next
      case False
      with l have "l = n" by simp
      with sidn show ?thesis by (simp add: separated_def)
    qed
  qed
  from s' r' show ?thesis by (simp add: headway_inv_def)
qed

lemma route_loop_headway_inv:
  "headway_inv sm lgs le \<Longrightarrow> route_loop sm fx tr r (lgs, le, cur) = Inr (lgs', le', cur')
   \<Longrightarrow> headway_inv sm lgs' le'"
proof (induction r arbitrary: lgs le cur)
  case Nil
  then show ?case by simp
next
  case (Cons sid rest)
  from Cons.prems(2) obtain st where
    s: "section_step sm fx tr sid (lgs, le, cur) = Inr st"
    and r: "route_loop sm fx tr rest st = Inr (lgs', le', cur')"
    by (auto simp: ebind_eq_Inr)
  from section_step_Inr [OF s] obtain n where
    st: "st = (lgs @ [n], le(sid \<mapsto> exit_time n), exit_time n)"
    and ok: "leg_ok sm fx tr sid le cur n" by blast
  from r st have r': "route_loop sm fx tr rest
      (lgs @ [n], le(sid \<mapsto> exit_time n), exit_time n) = Inr (lgs', le', cur')" by simp
  from Cons.IH [OF headway_inv_step [OF Cons.prems(1) ok] r'] show ?case .
qed

lemma trains_loop_headway_inv:
  "headway_inv sm lgs le \<Longrightarrow> trains_loop sm fx ts (lgs, le) = Inr (lgs', le')
   \<Longrightarrow> headway_inv sm lgs' le'"
proof (induction ts arbitrary: lgs le)
  case Nil
  then show ?case by simp
next
  case (Cons tr trs)
  from trains_loop_Cons_Inr [OF Cons.prems(2)] obtain l1 e1 c1 where
    r: "route_loop sm fx tr (route tr) (lgs, le, planned_departure tr) = Inr (l1, e1, c1)"
    and t: "trains_loop sm fx trs (l1, e1) = Inr (lgs', le')"
    by blast
  from Cons.IH [OF route_loop_headway_inv [OF Cons.prems(1) r] t] show ?case .
qed

text \<open>
  Claim C1: in a schedule produced without error, any two legs on the same single-track
  section, the first emitted before the second, are separated by the headway: the later
  leg enters at least 5 minutes after the earlier one exits, and the two datetimes can
  be compared (both naive or both aware). This holds whether or not the later leg was
  shifted, so the exception the claim allows is never needed.
\<close>

theorem headway_separation:
  assumes "generate_feasible_schedule secs now fromiso sc = Inr sched"
    and "i < j" and "j < length (legs sched)"
    and "section_id (legs sched ! i) = section_id (legs sched ! j)"
    and "sections_map secs (section_id (legs sched ! j)) = Some sec"
    and "single_track sec"
  shows "is_aware (exit_time (legs sched ! i)) = is_aware (enter_time (legs sched ! j))
       \<and> instant (exit_time (legs sched ! i)) + minutes SAFE_HEADWAY_MIN
           \<le> instant (enter_time (legs sched ! j))"
proof -
  from generate_Inr [OF assms(1)] obtain ts le where
    t: "trains_loop (sections_map secs) (parse_fixed_overrides fromiso (overrides sc))
          ts ([], Map.empty) = Inr (legs sched, le)" by blast
  have "headway_inv (sections_map secs) [] Map.empty"
    by (simp add: headway_inv_def exits_recorded_def)
  from trains_loop_headway_inv [OF this t]
  have "sorted_wrt (headway_rel (sections_map secs)) (legs sched)"
    by (simp add: headway_inv_def)
  with assms(2,3) have "headway_rel (sections_map secs) (legs sched ! i) (legs sched ! j)"
    by (simp add: sorted_wrt_iff_nth_less)
  with assms(4,5,6) show ?thesis by (simp add: headway_rel_def separated_def)
qed

theorem headway_separation_witness:
  "generate_feasible_schedule [S1, S2] (at_minute 7) iso0 demo_scenario = Inr demo_schedule
   \<and> (0::nat) < 2 \<and> 2 < length (legs demo_schedule)
   \<and> section_id (legs demo_schedule ! 0) = section_id (legs demo_schedule ! 2)
   \<and> sections_map [S1, S2] (section_id (legs demo_schedule ! 2)) = Some S1
   \<and> single_track S1
   \<and> is_aware (exit_time (legs demo_schedule ! 0)) = is_aware (enter_time (legs demo_schedule ! 2))
   \<and> instant (exit_time (legs demo_schedule ! 0)) + minutes SAFE_HEADWAY_MIN
       \<le> instant (enter_time (legs demo_schedule ! 2))"
proof -
  have a: "(0::nat) < 2" by simp
  have b: "2 < length (legs demo_schedule)"
    by (simp add: demo_schedule_def mk_schedule_def)
  have c: "section_id (legs demo_schedule ! 0) = section_id (legs demo_schedule ! 2)"
    by (simp add: demo_schedule_def mk_schedule_def mk_leg_def)
  have d: "sections_map [S1, S2] (section_id (legs demo_schedule ! 2)) = Some S1"
    by (simp add: demo_schedule_def mk_schedule_def mk_leg_def sections_map_def dict_comp_def)
  have e: "single_track S1" by simp
  from headway_separation [OF demo_run a b c d e] demo_run a b c d e
  show ?thesis by (intro conjI) simp_all
qed

section \<open>The legs of a train form one block\<close>

lemma route_loop_block:
  "route_loop sm fx tr r (lgs, le, cur) = Inr (lgs', le', cur') \<Longrightarrow>
   \<exists>b. lgs' = lgs @ b \<and> map section_id b = r \<and> map train_id b = map (\<lambda>s. t_id tr) r
      \<and> chain_ok fx (t_id tr) cur b"
proof (induction r arbitrary: lgs le cur)
  case Nil
  then show ?case by simp
next
  case (Cons sid rest)
  from Cons.prems obtain st where
    s: "section_step sm fx tr sid (lgs, le, cur) = Inr st"
    and r: "route_loop sm fx tr rest st = Inr (lgs', le', cur')"
    by (auto simp: ebind_eq_Inr)
  from section_step_Inr [OF s] obtain n where
    st: "st = (lgs @ [n], le(sid \<mapsto> exit_time n), exit_time n)"
    and ok: "leg_ok sm fx tr sid le cur n" by blast
  from r st have r': "route_loop sm fx tr rest
      (lgs @ [n], le(sid \<mapsto> exit_time n), exit_time n) = Inr (lgs', le', cur')" by simp
  from Cons.IH [OF r'] obtain b where
    b: "lgs' = (lgs @ [n]) @ b" "map section_id b = rest"
       "map train_id b = map (\<lambda>s. t_id tr) rest" "chain_ok fx (t_id tr) (exit_time n) b"
    by blast
  from ok have n: "train_id n = t_id tr" "section_id n = sid"
    "dt_leq (case fx (override_key (t_id tr) sid) of None \<Rightarrow> cur | Some t \<Rightarrow> t) (enter_time n)"
    by (simp_all add: leg_ok_def)
  with b have "lgs' = lgs @ (n # b) \<and> map section_id (n # b) = sid # rest
      \<and> map train_id (n # b) = map (\<lambda>s. t_id tr) (sid # rest)
      \<and> chain_ok fx (t_id tr) cur (n # b)" by simp
  then show ?case by (rule exI [of _ "n # b"])
qed

lemma trains_loop_blocks:
  "trains_loop sm fx ts (lgs, le) = Inr (lgs', le') \<Longrightarrow>
   \<exists>blocks. lgs' = lgs @ concat blocks \<and> list_all2 (block_ok fx) ts blocks"
proof (induction ts arbitrary: lgs le)
  case Nil
  then show ?case by simp
next
  case (Cons tr trs)
  from trains_loop_Cons_Inr [OF Cons.prems] obtain l1 e1 c1 where
    r: "route_loop sm fx tr (route tr) (lgs, le, planned_departure tr) = Inr (l1, e1, c1)"
    and t: "trains_loop sm fx trs (l1, e1) = Inr (lgs', le')"
    by blast
  from route_loop_block [OF r] obtain b where
    b: "l1 = lgs @ b" "block_ok fx tr b" by (auto simp: block_ok_def)
  from Cons.IH [OF t] obtain blocks where
    bs: "lgs' = l1 @ concat blocks" "list_all2 (block_ok fx) trs blocks" by blast
  from b bs have "lgs' = lgs @ concat (b # blocks)
      \<and> list_all2 (block_ok fx) (tr # trs) (b # blocks)"
    by simp
  then show ?case by (rule exI [of _ "b # blocks"])
qed

lemma generate_blocks:
  assumes "generate_feasible_schedule secs now fromiso sc = Inr sched"
  shows "\<exists>ts blocks. trains_sorted (trains sc) = Inr ts \<and> legs sched = concat blocks
           \<and> list_all2 (block_ok (parse_fixed_overrides fromiso (overrides sc))) ts blocks"
proof -
  from generate_Inr [OF assms] obtain ts le where
    ts: "trains_sorted (trains sc) = Inr ts"
    and "trains_loop (sections_map secs) (parse_fixed_overrides fromiso (overrides sc))
          ts ([], Map.empty) = Inr (legs sched, le)" by blast
  from trains_loop_blocks [OF this(2)] ts show ?thesis by simp
qed

lemma chain_ok_nth:
  "chain_ok fx tid cur b \<Longrightarrow> j + 1 < length b \<Longrightarrow>
   dt_leq (case fx (override_key tid (section_id (b ! (j + 1)))) of
             None \<Rightarrow> exit_time (b ! j) | Some t \<Rightarrow> t) (enter_time (b ! (j + 1)))"
proof (induction b arbitrary: cur j)
  case Nil
  then show ?case by simp
next
  case (Cons l ls)
  show ?case
  proof (cases j)
    case 0
    with Cons.prems obtain l' ls' where ls: "ls = l' # ls'" by (cases ls) auto
    with Cons.prems 0 show ?thesis by (simp split: option.splits)
  next
    case (Suc k)
    with Cons.prems have "chain_ok fx tid (exit_time l) ls" "k + 1 < length ls" by simp_all
    from Cons.IH [OF this] Suc show ?thesis by (simp split: option.splits)
  qed
qed

lemma block_proj:
  "map section_id b = r \<Longrightarrow> map train_id b = map (\<lambda>s. tid) r \<Longrightarrow>
   map (\<lambda>l. (train_id l, section_id l)) b = map (\<lambda>s. (tid, s)) r"
proof (induction b arbitrary: r)
  case Nil
  then show ?case by simp
next
  case (Cons l ls)
  from Cons.prems(1) obtain s rest where r: "r = s # rest" by (cases r) auto
  with Cons.prems have "map section_id ls = rest" "map train_id ls = map (\<lambda>s. tid) rest"
    "section_id l = s" "train_id l = tid" by simp_all
  with Cons.IH [of rest] r show ?case by simp
qed

lemma blocks_legs_proj:
  "list_all2 (block_ok fx) ts blocks \<Longrightarrow>
   map (\<lambda>l. (train_id l, section_id l)) (concat blocks)
     = concat (map (\<lambda>t. map (\<lambda>s. (t_id t, s)) (route t)) ts)"
proof (induction rule: list_all2_induct)
  case Nil
  then show ?case by simp
next
  case (Cons t ts b bs)
  from Cons.hyps(1)
  have "map (\<lambda>l. (train_id l, section_id l)) b = map (\<lambda>s. (t_id t, s)) (route t)"
    unfolding block_ok_def using block_proj [of b "route t" "t_id t"] by simp
  with Cons.IH show ?case by simp
qed

section \<open>The sort of the trains\<close>

lemma trains_sorted_Inr:
  assumes "trains_sorted ts = Inr ts'"
  shows "ts' = sort_key train_key ts"
    and "\<And>t u. t \<in> set ts \<Longrightarrow> u \<in> set ts \<Longrightarrow> \<not> incomparable t u"
  using assms by (auto simp: trains_sorted_def list_ex_iff split: if_splits)

lemma trains_sorted_Inl: "trains_sorted ts = Inl e \<Longrightarrow> e = TypeError"
  by (simp add: trains_sorted_def split: if_splits)

lemma trains_sorted_comparable:
  "(\<And>t u. t \<in> set ts \<Longrightarrow> u \<in> set ts \<Longrightarrow> \<not> incomparable t u) \<Longrightarrow>
   trains_sorted ts = Inr (sort_key train_key ts)"
  by (auto simp: trains_sorted_def list_ex_iff)

lemma trains_sorted_mset: "trains_sorted ts = Inr ts' \<Longrightarrow> mset ts' = mset ts"
  by (auto simp: trains_sorted_def split: if_splits)

lemma trains_sorted_set: "trains_sorted ts = Inr ts' \<Longrightarrow> set ts' = set ts"
  by (auto simp: trains_sorted_def split: if_splits)

lemma trains_sorted_length: "trains_sorted ts = Inr ts' \<Longrightarrow> length ts' = length ts"
  by (auto simp: trains_sorted_def split: if_splits)

lemma trains_sorted_order:
  assumes s: "trains_sorted ts = Inr ts'" and "i < j" "j < length ts'"
  shows "priority (ts' ! j) < priority (ts' ! i)
       \<or> (priority (ts' ! j) = priority (ts' ! i)
          \<and> dt_leq (planned_departure (ts' ! i)) (planned_departure (ts' ! j)))"
proof -
  have "sorted (map train_key ts')"
    unfolding trains_sorted_Inr(1) [OF s] by (rule sorted_sort_key)
  with assms(2,3) have k: "train_key (ts' ! i) \<le> train_key (ts' ! j)"
    by (simp add: sorted_iff_nth_mono)
  from assms(2,3) have "ts' ! i \<in> set ts" "ts' ! j \<in> set ts"
    using trains_sorted_set [OF s] nth_mem [of i ts'] nth_mem [of j ts'] by auto
  from trains_sorted_Inr(2) [OF s this]
  have "priority (ts' ! i) = priority (ts' ! j) \<Longrightarrow>
      is_aware (planned_departure (ts' ! i)) = is_aware (planned_departure (ts' ! j))"
    by (simp add: incomparable_def)
  with k show ?thesis by (auto simp: less_eq_prod_def train_key_def dt_leq_def)
qed

section \<open>Consecutive legs of a train\<close>

text \<open>
  Claim C3 as stated fails: a fixed-enter override replaces the candidate enter time, it
  is not a lower bound on top of the exit of the previous leg. Train A runs S1 from
  minute 0 to minute 5; its override for S2 is minute 0, S2 has no earlier exit, so A's
  leg on S2 enters at minute 0, before A has left S1.
\<close>

theorem consecutive_legs_override_counterexample:
  "generate_feasible_schedule [S1, S2] (at_minute 7) iso0 override_scenario = Inr override_schedule
   \<and> train_id (legs override_schedule ! 0) = ''A'' \<and> train_id (legs override_schedule ! 1) = ''A''
   \<and> section_id (legs override_schedule ! 0) = ''S1''
   \<and> section_id (legs override_schedule ! 1) = ''S2''
   \<and> dt_less (enter_time (legs override_schedule ! 1)) (exit_time (legs override_schedule ! 0))
       = Inr True"
  by (simp add: override_scenario_def override_schedule_def eval_defs)

text \<open>
  Claim C3, amended: in a schedule produced without error the legs are the blocks of the
  trains in commitment order, the block of a train covers its route in order, and for
  consecutive legs (l1, l2) of a block: when the override table has no entry for the train
  and l2's section, l2 enters no earlier than l1 exits; when it has one, l2 enters no
  earlier than the override time (which may lie before l1's exit). The comparisons are
  those of Python: the two datetimes can be compared and the first is not the later one.
\<close>

theorem consecutive_legs_candidate:
  assumes "generate_feasible_schedule secs now fromiso sc = Inr sched"
  shows "\<exists>ts blocks. trains_sorted (trains sc) = Inr ts
     \<and> legs sched = concat blocks \<and> length blocks = length (trains sc)
     \<and> (\<forall>k < length blocks.
           map section_id (blocks ! k) = route (ts ! k)
         \<and> (\<forall>l \<in> set (blocks ! k). train_id l = t_id (ts ! k))
         \<and> (\<forall>j. j + 1 < length (blocks ! k) \<longrightarrow>
               (case parse_fixed_overrides fromiso (overrides sc)
                       (override_key (t_id (ts ! k)) (section_id (blocks ! k ! (j + 1)))) of
                  None \<Rightarrow> dt_leq (exit_time (blocks ! k ! j)) (enter_time (blocks ! k ! (j + 1)))
                | Some t \<Rightarrow> dt_leq t (enter_time (blocks ! k ! (j + 1))))))"
proof -
  let ?fx = "parse_fixed_overrides fromiso (overrides sc)"
  from generate_blocks [OF assms] obtain ts blocks where
    ts: "trains_sorted (trains sc) = Inr ts"
    and l: "legs sched = concat blocks" and a: "list_all2 (block_ok ?fx) ts blocks" by blast
  from a have len: "length blocks = length (trains sc)"
    using trains_sorted_length [OF ts] by (simp add: list_all2_lengthD [symmetric])
  have "map section_id (blocks ! k) = route (ts ! k)
         \<and> (\<forall>l \<in> set (blocks ! k). train_id l = t_id (ts ! k))
         \<and> (\<forall>j. j + 1 < length (blocks ! k) \<longrightarrow>
               (case ?fx (override_key (t_id (ts ! k)) (section_id (blocks ! k ! (j + 1)))) of
                  None \<Rightarrow> dt_leq (exit_time (blocks ! k ! j)) (enter_time (blocks ! k ! (j + 1)))
                | Some t \<Rightarrow> dt_leq t (enter_time (blocks ! k ! (j + 1)))))"
    if k: "k < length blocks" for k
  proof -
    from a k have b: "block_ok ?fx (ts ! k) (blocks ! k)"
      by (simp add: list_all2_conv_all_nth)
    then have ids: "map train_id (blocks ! k) = map (\<lambda>s. t_id (ts ! k)) (route (ts ! k))"
      and ch: "chain_ok ?fx (t_id (ts ! k)) (planned_departure (ts ! k)) (blocks ! k)"
      and secs: "map section_id (blocks ! k) = route (ts ! k)"
      by (simp_all add: block_ok_def)
    have "train_id l = t_id (ts ! k)" if "l \<in> set (blocks ! k)" for l
    proof -
      from that have "train_id l \<in> set (map train_id (blocks ! k))" by simp
      then show ?thesis unfolding ids by auto
    qed
    moreover have "(case ?fx (override_key (t_id (ts ! k)) (section_id (blocks ! k ! (j + 1)))) of
                  None \<Rightarrow> dt_leq (exit_time (blocks ! k ! j)) (enter_time (blocks ! k ! (j + 1)))
                | Some t \<Rightarrow> dt_leq t (enter_time (blocks ! k ! (j + 1))))"
      if "j + 1 < length (blocks ! k)" for j
      using chain_ok_nth [OF ch that] by (simp split: option.splits)
    ultimately show ?thesis using secs by blast
  qed
  with ts l len show ?thesis by blast
qed

theorem consecutive_legs_candidate_witness:
  "generate_feasible_schedule [S1, S2] (at_minute 7) iso0 demo_scenario = Inr demo_schedule
   \<and> (\<exists>ts blocks. trains_sorted (trains demo_scenario) = Inr ts
     \<and> legs demo_schedule = concat blocks \<and> length blocks = length (trains demo_scenario)
     \<and> (\<forall>k < length blocks.
           map section_id (blocks ! k) = route (ts ! k)
         \<and> (\<forall>l \<in> set (blocks ! k). train_id l = t_id (ts ! k))
         \<and> (\<forall>j. j + 1 < length (blocks ! k) \<longrightarrow>
               (case parse_fixed_overrides iso0 (overrides demo_scenario)
                       (override_key (t_id (ts ! k)) (section_id (blocks ! k ! (j + 1)))) of
                  None \<Rightarrow> dt_leq (exit_time (blocks ! k ! j)) (enter_time (blocks ! k ! (j + 1)))
                | Some t \<Rightarrow> dt_leq t (enter_time (blocks ! k ! (j + 1)))))))"
  using demo_run consecutive_legs_candidate [OF demo_run] by (rule conjI)

section \<open>Commitment order\<close>

text \<open>
  Claim C5: the trains are processed in one fixed order, the stable sort of the scenario's
  trains by priority descending and then planned departure ascending (a permutation of the
  trains; trains that agree on both keys keep their order), and in a schedule produced
  without error the legs are, train after train in that order, the sections of the
  train's route.
\<close>

theorem commitment_order:
  assumes "generate_feasible_schedule secs now fromiso sc = Inr sched"
  shows "\<exists>ts. trains_sorted (trains sc) = Inr ts
     \<and> map (\<lambda>l. (train_id l, section_id l)) (legs sched)
           = concat (map (\<lambda>t. map (\<lambda>s. (t_id t, s)) (route t)) ts)
     \<and> mset ts = mset (trains sc)
     \<and> (\<forall>i j. i < j \<and> j < length ts \<longrightarrow>
           priority (ts ! j) < priority (ts ! i)
         \<or> (priority (ts ! j) = priority (ts ! i)
            \<and> dt_leq (planned_departure (ts ! i)) (planned_departure (ts ! j))))
     \<and> (\<forall>p d. filter (\<lambda>t. priority t = p \<and> instant (planned_departure t) = d) ts
               = filter (\<lambda>t. priority t = p \<and> instant (planned_departure t) = d) (trains sc))"
proof -
  from generate_blocks [OF assms] obtain ts blocks where
    ts: "trains_sorted (trains sc) = Inr ts"
    and l: "legs sched = concat blocks"
    and a: "list_all2 (block_ok (parse_fixed_overrides fromiso (overrides sc))) ts blocks"
    by blast
  have 1: "map (\<lambda>l. (train_id l, section_id l)) (legs sched)
           = concat (map (\<lambda>t. map (\<lambda>s. (t_id t, s)) (route t)) ts)"
    unfolding l by (rule blocks_legs_proj [OF a])
  have 2: "mset ts = mset (trains sc)" by (rule trains_sorted_mset [OF ts])
  have 4: "filter (\<lambda>t. priority t = p \<and> instant (planned_departure t) = d) ts
               = filter (\<lambda>t. priority t = p \<and> instant (planned_departure t) = d) (trains sc)"
    for p d
    using sort_key_stable [of train_key "(- p, d)" "trains sc"]
    by (simp add: trains_sorted_Inr(1) [OF ts] train_key_def)
  from ts 1 2 4 trains_sorted_order [OF ts] show ?thesis by blast
qed

theorem commitment_order_witness:
  "generate_feasible_schedule [S1, S2] (at_minute 7) iso0 demo_scenario = Inr demo_schedule
   \<and> trains_sorted (trains demo_scenario)
       = Inr [mk_train ''A'' 8 (at_minute 0) [''S1'', ''S2''], mk_train ''B'' 5 (at_minute 0) [''S1'']]
   \<and> map (\<lambda>l. (train_id l, section_id l)) (legs demo_schedule)
       = [(''A'', ''S1''), (''A'', ''S2''), (''B'', ''S1'')]"
proof -
  have s: "trains_sorted (trains demo_scenario)
       = Inr [mk_train ''A'' 8 (at_minute 0) [''S1'', ''S2''], mk_train ''B'' 5 (at_minute 0) [''S1'']]"
    by (simp add: demo_scenario_def mk_scenario_def trains_sorted_def incomparable_def
        train_key_def)
  from commitment_order [OF demo_run] obtain ts where
    "trains_sorted (trains demo_scenario) = Inr ts"
    "map (\<lambda>l. (train_id l, section_id l)) (legs demo_schedule)
           = concat (map (\<lambda>t. map (\<lambda>s. (t_id t, s)) (route t)) ts)"
    by blast
  with s have "map (\<lambda>l. (train_id l, section_id l)) (legs demo_schedule)
       = [(''A'', ''S1''), (''A'', ''S2''), (''B'', ''S1'')]"
    by simp
  with demo_run s show ?thesis by (intro conjI)
qed

section \<open>Unknown sections\<close>

lemma route_loop_Inl:
  "route_loop sm fx tr r st = Inl e \<Longrightarrow>
   (\<exists>s \<in> set r. sm s = None \<and> e = HTTPException 400 (''Unknown section '' @ s))
   \<or> python_error e"
proof (induction r arbitrary: st)
  case Nil
  then show ?case by simp
next
  case (Cons sid rest)
  from Cons.prems consider
    (step) "section_step sm fx tr sid st = Inl e"
    | (rest) st' where "section_step sm fx tr sid st = Inr st'" "route_loop sm fx tr rest st' = Inl e"
    by (auto simp: ebind_eq_Inl)
  then show ?case
  proof cases
    case step
    from section_step_Inl [OF step] show ?thesis by auto
  next
    case rest
    from Cons.IH [OF rest(2)] show ?thesis by auto
  qed
qed

lemma route_loop_unknown:
  "s \<in> set r \<Longrightarrow> sm s = None \<Longrightarrow> \<exists>e. route_loop sm fx tr r st = Inl e"
proof (induction r arbitrary: st)
  case Nil
  then show ?case by simp
next
  case (Cons sid rest)
  show ?case
  proof (cases "section_step sm fx tr sid st")
    case (Inl e)
    then show ?thesis by simp
  next
    case (Inr st')
    have "sid \<noteq> s"
    proof
      assume "sid = s"
      with section_step_unknown [of sm sid fx tr st] Cons.prems(2) Inr show False by simp
    qed
    with Cons.prems have "s \<in> set rest" by auto
    from Cons.IH [OF this Cons.prems(2), of st'] Inr show ?thesis by simp
  qed
qed

lemma trains_loop_Inl:
  "trains_loop sm fx ts st = Inl e \<Longrightarrow>
   (\<exists>t \<in> set ts. \<exists>s \<in> set (route t).
      sm s = None \<and> e = HTTPException 400 (''Unknown section '' @ s))
   \<or> python_error e"
proof (induction ts arbitrary: st)
  case Nil
  then show ?case by simp
next
  case (Cons tr trs)
  obtain lgs le where st: "st = (lgs, le)" by (cases st) auto
  show ?case
  proof (cases "route_loop sm fx tr (route tr) (lgs, le, planned_departure tr)")
    case (Inl e')
    with Cons.prems st have "e' = e" by simp
    with route_loop_Inl [OF Inl] show ?thesis by auto
  next
    case (Inr st')
    obtain l1 e1 c1 where st': "st' = (l1, e1, c1)" by (cases st') auto
    with Inr Cons.prems st have "trains_loop sm fx trs (l1, e1) = Inl e" by simp
    from Cons.IH [OF this] show ?thesis by auto
  qed
qed

lemma trains_loop_unknown:
  "t \<in> set ts \<Longrightarrow> s \<in> set (route t) \<Longrightarrow> sm s = None \<Longrightarrow> \<exists>e. trains_loop sm fx ts st = Inl e"
proof (induction ts arbitrary: st)
  case Nil
  then show ?case by simp
next
  case (Cons tr trs)
  obtain lgs le where st: "st = (lgs, le)" by (cases st) auto
  show ?case
  proof (cases "route_loop sm fx tr (route tr) (lgs, le, planned_departure tr)")
    case (Inl e')
    with st show ?thesis by simp
  next
    case (Inr st')
    obtain l1 e1 c1 where st': "st' = (l1, e1, c1)" by (cases st') auto
    have "t \<noteq> tr"
    proof
      assume "t = tr"
      with Cons.prems route_loop_unknown [of s "route tr" sm fx tr "(lgs, le, planned_departure tr)"]
      show False using Inr by auto
    qed
    with Cons.prems have "t \<in> set trs" by simp
    from Cons.IH [of "(l1, e1)"] this Cons.prems(2,3) Inr st st' show ?thesis by simp
  qed
qed

text \<open>The loops on a route and on a list of trains that are cut in two.\<close>

lemma route_loop_append:
  "route_loop sm fx tr (r1 @ r2) st = ebind (route_loop sm fx tr r1 st) (route_loop sm fx tr r2)"
proof (induction r1 arbitrary: st)
  case Nil
  then show ?case by simp
next
  case (Cons sid rest)
  then show ?case by (cases "section_step sm fx tr sid st") simp_all
qed

lemma trains_loop_append:
  "trains_loop sm fx (ts1 @ ts2) st = ebind (trains_loop sm fx ts1 st) (trains_loop sm fx ts2)"
proof (induction ts1 arbitrary: st)
  case Nil
  then show ?case by simp
next
  case (Cons tr trs)
  obtain lgs le where st: "st = (lgs, le)" by (cases st) auto
  show ?case
  proof (cases "route_loop sm fx tr (route tr) (lgs, le, planned_departure tr)")
    case (Inl e)
    with st show ?thesis by simp
  next
    case (Inr st')
    obtain l1 e1 c1 where "st' = (l1, e1, c1)" by (cases st') auto
    with Inr st Cons.IH [of "(l1, e1)"] show ?thesis by simp
  qed
qed

text \<open>The loop body reads the id and the speed limit of the train, not its route.\<close>

lemma route_loop_route_update:
  "route_loop sm fx (tr\<lparr>route := r'\<rparr>) r st = route_loop sm fx tr r st"
proof (induction r arbitrary: st)
  case Nil
  then show ?case by simp
next
  case (Cons sid rest)
  have "compute_run_time_minutes sec (tr\<lparr>route := r'\<rparr>) = compute_run_time_minutes sec tr"
    for sec by (simp add: compute_run_time_minutes_def)
  then have "section_step sm fx (tr\<lparr>route := r'\<rparr>) sid st = section_step sm fx tr sid st"
    by (cases st) (simp add: section_step_def split: option.splits)
  moreover from Cons.IH
  have "route_loop sm fx (tr\<lparr>route := r'\<rparr>) rest = route_loop sm fx tr rest" by auto
  ultimately show ?case by simp
qed

text \<open>
  When the trains before train \<open>t\<close> and the sections of \<open>t\<close>'s route before \<open>s\<close> are
  scheduled without error and \<open>s\<close> is missing, the loop raises Unknown-Section for \<open>s\<close>.
\<close>

lemma trains_loop_first_unknown:
  assumes pre: "trains_loop sm fx (ts1 @ [t\<lparr>route := pre\<rparr>]) st = Inr st'"
    and r: "route t = pre @ s # post" and s: "sm s = None"
  shows "trains_loop sm fx (ts1 @ t # ts2) st = Inl (HTTPException 400 (''Unknown section '' @ s))"
proof -
  from pre obtain lgs le where
    a: "trains_loop sm fx ts1 st = Inr (lgs, le)"
    and b: "trains_loop sm fx [t\<lparr>route := pre\<rparr>] (lgs, le) = Inr st'"
    unfolding trains_loop_append by (auto simp: ebind_eq_Inr)
  from b obtain st1 where
    c: "route_loop sm fx t pre (lgs, le, planned_departure t) = Inr st1"
    by (cases "route_loop sm fx t pre (lgs, le, planned_departure t)")
       (simp_all add: route_loop_route_update)
  have "route_loop sm fx t (route t) (lgs, le, planned_departure t)
      = Inl (HTTPException 400 (''Unknown section '' @ s))"
    unfolding r route_loop_append c using s by (simp add: section_step_unknown)
  then have "trains_loop sm fx (t # ts2) (lgs, le)
      = Inl (HTTPException 400 (''Unknown section '' @ s))" by simp
  with a show ?thesis unfolding trains_loop_append by simp
qed

text \<open>
  Claim C6 as stated fails: the Unknown-Section error is raised when the loop reaches the
  missing section, and a Python error raised before that ends the request with that
  error instead. Train C leaves at 9999-12-31T23:58 with the route [S1, S9]: its exit from
  S1, five minutes later, is outside the range of \<^verbatim>\<open>datetime\<close>, and the request ends with
  \<^verbatim>\<open>OverflowError\<close> before S9 is looked up.
\<close>

theorem unknown_section_overflow_counterexample:
  "trains late_unknown_scenario = [mk_train ''C'' 5 last_minutes [''S1'', ''S9'']]
   \<and> sections_map [S1, S2] ''S9'' = None
   \<and> generate_feasible_schedule [S1, S2] (at_minute 7) iso0 late_unknown_scenario
       = Inl OverflowError"
  using late_unknown_run
  by (simp add: late_unknown_scenario_def mk_scenario_def sections_map_def dict_comp_def)

text \<open>
  Claim C6, amended: when the route of some train names a section that the directory does
  not have, the request fails and the result is the error alone: no schedule, hence no
  leg of any train, is returned. The error is the Unknown-Section error (HTTP 400) for a
  missing section of some route, or a \<^verbatim>\<open>TypeError\<close>, \<^verbatim>\<open>OverflowError\<close> or
  \<^verbatim>\<open>ValueError\<close> of Python raised before the missing section was reached. It is the
  Unknown-Section error for section \<open>s'\<close> whenever the trains sort without error and the
  trains before the one that names \<open>s'\<close>, and the sections of its route before \<open>s'\<close>, are
  scheduled without error.
\<close>

theorem unknown_section_aborts:
  assumes "t \<in> set (trains sc)" and "s \<in> set (route t)" and "sections_map secs s = None"
  shows "(\<exists>e. generate_feasible_schedule secs now fromiso sc = Inl e
            \<and> (python_error e
               \<or> (\<exists>t' \<in> set (trains sc). \<exists>s' \<in> set (route t'). sections_map secs s' = None
                     \<and> e = HTTPException 400 (''Unknown section '' @ s'))))
       \<and> (\<forall>ts1 t' ts2 pre s' post st.
            trains_sorted (trains sc) = Inr (ts1 @ t' # ts2) \<and> route t' = pre @ s' # post
            \<and> sections_map secs s' = None
            \<and> trains_loop (sections_map secs) (parse_fixed_overrides fromiso (overrides sc))
                (ts1 @ [t'\<lparr>route := pre\<rparr>]) ([], Map.empty) = Inr st
            \<longrightarrow> generate_feasible_schedule secs now fromiso sc
                  = Inl (HTTPException 400 (''Unknown section '' @ s')))"
proof -
  let ?fx = "parse_fixed_overrides fromiso (overrides sc)"
  let ?sm = "sections_map secs"
  have 1: "\<exists>e. generate_feasible_schedule secs now fromiso sc = Inl e
            \<and> (python_error e
               \<or> (\<exists>t' \<in> set (trains sc). \<exists>s' \<in> set (route t'). ?sm s' = None
                     \<and> e = HTTPException 400 (''Unknown section '' @ s')))"
  proof (cases "trains_sorted (trains sc)")
    case (Inl e)
    from trains_sorted_Inl [OF Inl] have "python_error e" by (simp add: python_error_def)
    moreover from Inl have "generate_feasible_schedule secs now fromiso sc = Inl e"
      by (simp add: generate_feasible_schedule_def)
    ultimately show ?thesis by blast
  next
    case (Inr ts)
    from assms(1) have "t \<in> set ts" using trains_sorted_set [OF Inr] by simp
    with trains_loop_unknown [of t ts s ?sm ?fx "([], Map.empty)"] assms(2,3) obtain e where
      e: "trains_loop ?sm ?fx ts ([], Map.empty) = Inl e"
      by blast
    from trains_loop_Inl [OF e] have "python_error e
        \<or> (\<exists>t' \<in> set (trains sc). \<exists>s' \<in> set (route t'). ?sm s' = None
              \<and> e = HTTPException 400 (''Unknown section '' @ s'))"
      using trains_sorted_set [OF Inr] by auto
    moreover from e Inr have "generate_feasible_schedule secs now fromiso sc = Inl e"
      by (simp add: generate_feasible_schedule_def)
    ultimately show ?thesis by blast
  qed
  have 2: "generate_feasible_schedule secs now fromiso sc
              = Inl (HTTPException 400 (''Unknown section '' @ s'))"
    if "trains_sorted (trains sc) = Inr (ts1 @ t' # ts2)" "route t' = pre @ s' # post"
      "?sm s' = None"
      "trains_loop ?sm ?fx (ts1 @ [t'\<lparr>route := pre\<rparr>]) ([], Map.empty) = Inr st"
    for ts1 t' ts2 pre s' post st
    using trains_loop_first_unknown [OF that(4,2,3), of ts2] that(1)
    by (simp add: generate_feasible_schedule_def)
  from 1 2 show ?thesis by blast
qed

theorem unknown_section_aborts_witness:
  "unknown_train \<in> set (trains unknown_scenario) \<and> ''S9'' \<in> set (route unknown_train)
   \<and> sections_map [S1, S2] ''S9'' = None
   \<and> trains_sorted (trains unknown_scenario)
       = Inr ([mk_train ''A'' 8 (at_minute 0) [''S1'']] @ unknown_train # [])
   \<and> route unknown_train = [''S1''] @ ''S9'' # []
   \<and> trains_loop (sections_map [S1, S2]) (parse_fixed_overrides iso0 (overrides unknown_scenario))
        ([mk_train ''A'' 8 (at_minute 0) [''S1'']] @ [unknown_train\<lparr>route := [''S1'']\<rparr>])
        ([], Map.empty)
       = Inr ([mk_leg ''A'' ''S1'' (at_minute 0) (at_minute 5),
               mk_leg ''C'' ''S1'' (at_minute 10) (at_minute 15)],
              [''S1'' \<mapsto> at_minute 15])
   \<and> generate_feasible_schedule [S1, S2] (at_minute 7) iso0 unknown_scenario
       = Inl (HTTPException 400 ''Unknown section S9'')"
proof -
  have a: "unknown_train \<in> set (trains unknown_scenario)"
    by (simp add: unknown_scenario_def mk_scenario_def)
  have b: "''S9'' \<in> set (route unknown_train)"
    by (simp add: unknown_train_def)
  have c: "sections_map [S1, S2] ''S9'' = None"
    by (simp add: sections_map_def dict_comp_def)
  have d: "trains_sorted (trains unknown_scenario)
       = Inr ([mk_train ''A'' 8 (at_minute 0) [''S1'']] @ unknown_train # [])"
    by (simp add: unknown_scenario_def unknown_train_def mk_scenario_def trains_sorted_def
        incomparable_def train_key_def)
  have e: "route unknown_train = [''S1''] @ ''S9'' # []"
    by (simp add: unknown_train_def)
  have f: "trains_loop (sections_map [S1, S2])
        (parse_fixed_overrides iso0 (overrides unknown_scenario))
        ([mk_train ''A'' 8 (at_minute 0) [''S1'']] @ [unknown_train\<lparr>route := [''S1'']\<rparr>])
        ([], Map.empty)
       = Inr ([mk_leg ''A'' ''S1'' (at_minute 0) (at_minute 5),
               mk_leg ''C'' ''S1'' (at_minute 10) (at_minute 15)],
              [''S1'' \<mapsto> at_minute 15])"
    by (simp add: unknown_scenario_def unknown_train_def mk_train_def [of "''C''"]
        eval_defs S1_run_time [unfolded mk_train_def])
  from unknown_section_aborts [OF a b c, of "at_minute 7" iso0] d e c f
  have "generate_feasible_schedule [S1, S2] (at_minute 7) iso0 unknown_scenario
       = Inl (HTTPException 400 (''Unknown section '' @ ''S9''))"
    by blast
  then have "generate_feasible_schedule [S1, S2] (at_minute 7) iso0 unknown_scenario
       = Inl (HTTPException 400 ''Unknown section S9'')" by simp
  with a b c d e f show ?thesis by (intro conjI)
qed

section \<open>Determinism\<close>

lemma route_loop_cong:
  "\<forall>s \<in> set r. sm s = sm' s \<Longrightarrow> route_loop sm fx tr r st = route_loop sm' fx tr r st"
proof (induction r arbitrary: st)
  case Nil
  then show ?case by simp
next
  case (Cons sid rest)
  from Cons.prems have "section_step sm fx tr sid st = section_step sm' fx tr sid st"
    by (intro section_step_cong) simp
  moreover from Cons.prems Cons.IH
  have "route_loop sm fx tr rest = route_loop sm' fx tr rest" by auto
  ultimately show ?case by simp
qed

lemma trains_loop_cong:
  "\<forall>t \<in> set ts. \<forall>s \<in> set (route t). sm s = sm' s \<Longrightarrow>
   trains_loop sm fx ts st = trains_loop sm' fx ts st"
proof (induction ts arbitrary: st)
  case Nil
  then show ?case by simp
next
  case (Cons tr trs)
  obtain lgs le where st: "st = (lgs, le)" by (cases st) auto
  from Cons.prems have "route_loop sm fx tr (route tr) (lgs, le, planned_departure tr)
      = route_loop sm' fx tr (route tr) (lgs, le, planned_departure tr)"
    by (intro route_loop_cong) simp
  moreover from Cons.prems Cons.IH
  have "trains_loop sm fx trs = trains_loop sm' fx trs" by auto
  ultimately show ?case using st by simp
qed

lemma demo_run_later:
  "generate_feasible_schedule [S1, S2] (at_minute 8) iso0 demo_scenario
     = Inr (demo_schedule\<lparr>created_at := at_minute 8\<rparr>)"
  by (simp add: demo_scenario_def demo_schedule_def eval_defs)

text \<open>
  Claim C7 as stated fails: \<^verbatim>\<open>Schedule.created_at\<close> is filled from the clock, so two runs
  on the same scenario, directory and overrides at different times give Schedules that
  are not equal.
\<close>

theorem schedule_created_at_counterexample:
  "generate_feasible_schedule [S1, S2] (at_minute 7) iso0 demo_scenario
   \<noteq> generate_feasible_schedule [S1, S2] (at_minute 8) iso0 demo_scenario"
  unfolding demo_run demo_run_later
  by (simp add: demo_schedule_def mk_schedule_def at_minute_def minutes_def)

text \<open>
  Claim C7, amended: the outcome of a run is determined by the trains and the id of the
  scenario, by the override table and by the directory entries of the sections that the
  routes name. Two runs that agree on these (in particular two runs on the same scenario,
  directory and overrides) give the same error, or Schedules with equal scenario_id,
  equal legs and equal objective; the Schedules differ at most in \<^verbatim>\<open>created_at\<close>, which is
  the clock reading of the run: the second run is the first with \<^verbatim>\<open>created_at\<close> replaced.
  The other fields of the scenario, the sections that no route names and the clock have
  no influence.
\<close>

theorem schedule_deterministic_up_to_created_at:
  assumes "trains sc2 = trains sc1" and "sc_id sc2 = sc_id sc1"
    and "parse_fixed_overrides fromiso2 (overrides sc2)
           = parse_fixed_overrides fromiso1 (overrides sc1)"
    and "\<forall>t \<in> set (trains sc1). \<forall>s \<in> set (route t). sections_map secs2 s = sections_map secs1 s"
  shows "generate_feasible_schedule secs2 now2 fromiso2 sc2
   = map_sum id (\<lambda>s. s\<lparr>created_at := now2\<rparr>) (generate_feasible_schedule secs1 now1 fromiso1 sc1)"
proof (cases "trains_sorted (trains sc1)")
  case (Inl e)
  with assms(1) show ?thesis by (simp add: generate_feasible_schedule_def)
next
  case (Inr ts)
  let ?fx = "parse_fixed_overrides fromiso1 (overrides sc1)"
  from assms(4) trains_sorted_set [OF Inr]
  have "\<forall>t \<in> set ts. \<forall>s \<in> set (route t). sections_map secs2 s = sections_map secs1 s" by simp
  from trains_loop_cong [OF this]
  have "trains_loop (sections_map secs2) ?fx ts ([], Map.empty)
      = trains_loop (sections_map secs1) ?fx ts ([], Map.empty)" .
  with Inr assms(1,2,3) show ?thesis
    by (cases "trains_loop (sections_map secs1) ?fx ts ([], Map.empty)")
       (auto simp: generate_feasible_schedule_def)
qed

theorem schedule_deterministic_up_to_created_at_witness:
  "trains renamed_scenario = trains demo_scenario \<and> sc_id renamed_scenario = sc_id demo_scenario
   \<and> parse_fixed_overrides iso0 (overrides renamed_scenario)
       = parse_fixed_overrides iso0 (overrides demo_scenario)
   \<and> map route (trains demo_scenario) = [[''S1''], [''S1'', ''S2'']]
   \<and> sections_map [S1, S2, S3] ''S1'' = sections_map [S1, S2] ''S1''
   \<and> sections_map [S1, S2, S3] ''S2'' = sections_map [S1, S2] ''S2''
   \<and> sections_map [S1, S2, S3] ''S3'' \<noteq> sections_map [S1, S2] ''S3''
   \<and> generate_feasible_schedule [S1, S2] (at_minute 7) iso0 demo_scenario = Inr demo_schedule
   \<and> generate_feasible_schedule [S1, S2, S3] (at_minute 8) iso0 renamed_scenario
       = Inr (demo_schedule\<lparr>created_at := at_minute 8\<rparr>)"
proof -
  have a: "trains renamed_scenario = trains demo_scenario"
    and b: "sc_id renamed_scenario = sc_id demo_scenario"
    and c: "parse_fixed_overrides iso0 (overrides renamed_scenario)
       = parse_fixed_overrides iso0 (overrides demo_scenario)"
    by (simp_all add: renamed_scenario_def)
  have r: "map route (trains demo_scenario) = [[''S1''], [''S1'', ''S2'']]"
    by (simp add: demo_scenario_def mk_scenario_def)
  have s1: "sections_map [S1, S2, S3] ''S1'' = sections_map [S1, S2] ''S1''"
    and s2: "sections_map [S1, S2, S3] ''S2'' = sections_map [S1, S2] ''S2''"
    and s3: "sections_map [S1, S2, S3] ''S3'' \<noteq> sections_map [S1, S2] ''S3''"
    by (simp_all add: sections_map_def dict_comp_def)
  have d: "\<forall>t \<in> set (trains demo_scenario). \<forall>s \<in> set (route t).
      sections_map [S1, S2, S3] s = sections_map [S1, S2] s"
    using s1 s2 by (simp add: demo_scenario_def mk_scenario_def)
  from schedule_deterministic_up_to_created_at [OF a b c d, of "at_minute 8" "at_minute 7"]
  have "generate_feasible_schedule [S1, S2, S3] (at_minute 8) iso0 renamed_scenario
       = Inr (demo_schedule\<lparr>created_at := at_minute 8\<rparr>)"
    unfolding demo_run by simp
  with a b c r s1 s2 s3 demo_run show ?thesis by (intro conjI)
qed

section \<open>What-if\<close>








section \<open>Throughput\<close>

lemma dict_comp_snoc: "dict_comp (kvs @ [kv]) = (dict_comp kvs)(fst kv \<mapsto> snd kv)"
  by (simp add: dict_comp_def)

lemma last_sections_snoc:
  "last_sections (ts @ [t]) = (last_sections ts)(t_id t \<mapsto> last_of_route t)"
  by (simp add: last_sections_def dict_comp_snoc last_of_route_def)

lemma last_sections_Nil: "last_sections [] = Map.empty"
  by (simp add: last_sections_def dict_comp_def)

lemma last_sections_distinct:
  "distinct (map t_id ts) \<Longrightarrow> t \<in> set ts \<Longrightarrow> last_sections ts (t_id t) = Some (last_of_route t)"
proof (induction ts rule: rev_induct)
  case Nil
  then show ?case by simp
next
  case (snoc x xs)
  show ?case
  proof (cases "t = x")
    case True
    then show ?thesis by (simp add: last_sections_snoc)
  next
    case False
    with snoc.prems have t: "t \<in> set xs" and d: "distinct (map t_id xs)"
      and nx: "t_id x \<notin> t_id ` set xs" by auto
    have "t_id t \<noteq> t_id x"
    proof
      assume "t_id t = t_id x"
      with t have "t_id x \<in> t_id ` set xs" by (metis imageI)
      with nx show False ..
    qed
    with snoc.IH [OF d t] show ?thesis by (simp add: last_sections_snoc)
  qed
qed

text \<open>Dropping the trains with an empty route keeps every entry that names a section.\<close>

lemma last_sections_filter:
  "last_sections ts k = Some (Some s) \<Longrightarrow>
   last_sections (filter (\<lambda>t. route t \<noteq> []) ts) k = Some (Some s)"
proof (induction ts rule: rev_induct)
  case Nil
  then show ?case by (simp add: last_sections_Nil)
next
  case (snoc x xs)
  show ?case
  proof (cases "route x = []")
    case True
    with snoc.prems have "k \<noteq> t_id x" "last_sections xs k = Some (Some s)"
      by (auto simp: last_sections_snoc last_of_route_def split: if_splits)
    with snoc.IH True show ?thesis by simp
  next
    case False
    show ?thesis
    proof (cases "k = t_id x")
      case True
      with snoc.prems False show ?thesis by (simp add: last_sections_snoc)
    next
      case neq: False
      with snoc.prems have "last_sections xs k = Some (Some s)" by (simp add: last_sections_snoc)
      with snoc.IH False neq show ?thesis by (simp add: last_sections_snoc)
    qed
  qed
qed

lemma finished_trains_set:
  "set (finished_trains ts lgs) =
     train_id ` {l \<in> set lgs. dict_get (last_sections ts) (train_id l) = Some (section_id l)}"
  by (simp add: finished_trains_def)

lemma finished_trains_length:
  "length (finished_trains ts lgs) = card (set (finished_trains ts lgs))"
  unfolding finished_trains_def by (simp add: length_remdups_card_conv)

lemma dict_get_Some: "dict_get d k = Some v \<longleftrightarrow> d k = Some (Some v)"
  by (auto simp: dict_get_def split: option.splits)

lemma finished_trains_filter_le:
  "length (finished_trains ts lgs)
     \<le> length (finished_trains (filter (\<lambda>t. route t \<noteq> []) ts) lgs)"
proof -
  have "set (finished_trains ts lgs)
      \<subseteq> set (finished_trains (filter (\<lambda>t. route t \<noteq> []) ts) lgs)"
    unfolding finished_trains_set by (auto simp: dict_get_Some dest: last_sections_filter)
  then show ?thesis unfolding finished_trains_length by (intro card_mono) simp_all
qed

lemma concat_blocks_filter:
  "distinct (map t_id ts) \<Longrightarrow> t \<in> set ts \<Longrightarrow>
   filter (\<lambda>p. fst p = t_id t) (concat (map (\<lambda>t. map (\<lambda>s. (t_id t, s)) (route t)) ts))
     = map (\<lambda>s. (t_id t, s)) (route t)"
proof (induction ts)
  case Nil
  then show ?case by simp
next
  case (Cons x xs)
  have none: "filter (\<lambda>p. fst p = k) (concat (map (\<lambda>t. map (\<lambda>s. (t_id t, s)) (route t)) ys)) = []"
    if "k \<notin> t_id ` set ys" for k ys
    using that by (induction ys) (auto simp: filter_empty_conv)
  show ?case
  proof (cases "t = x")
    case True
    with Cons.prems have "t_id t \<notin> t_id ` set xs" by auto
    from none [OF this] True show ?thesis by (simp add: filter_map comp_def)
  next
    case False
    with Cons.prems have t: "t \<in> set xs" and d: "distinct (map t_id xs)" by auto
    with Cons.prems have "t_id x \<noteq> t_id t" by auto
    then have "filter (\<lambda>p. fst p = t_id t) (map (\<lambda>s. (t_id x, s)) (route x)) = []"
      by (auto simp: filter_empty_conv)
    with Cons.IH [OF d t] show ?thesis by simp
  qed
qed

lemma own_legs_sections:
  assumes proj: "map (\<lambda>l. (train_id l, section_id l)) lgs
           = concat (map (\<lambda>t. map (\<lambda>s. (t_id t, s)) (route t)) ts)"
    and d: "distinct (map t_id ts)" and t: "t \<in> set ts"
  shows "map section_id (own_legs t lgs) = route t"
proof -
  have "map section_id (own_legs t lgs)
      = map snd (filter (\<lambda>p. fst p = t_id t) (map (\<lambda>l. (train_id l, section_id l)) lgs))"
    by (simp add: own_legs_def filter_map comp_def)
  also have "\<dots> = map snd (map (\<lambda>s. (t_id t, s)) (route t))"
    unfolding proj concat_blocks_filter [OF d t] ..
  also have "\<dots> = route t" by (simp add: comp_def)
  finally show ?thesis .
qed

lemma completed_route_iff:
  assumes proj: "map (\<lambda>l. (train_id l, section_id l)) lgs
           = concat (map (\<lambda>t. map (\<lambda>s. (t_id t, s)) (route t)) ts)"
    and d: "distinct (map t_id ts)" and t: "t \<in> set ts"
  shows "completed_route t lgs \<longleftrightarrow> route t \<noteq> []"
proof
  assume "completed_route t lgs"
  then show "route t \<noteq> []" by (simp add: completed_route_def)
next
  assume ne: "route t \<noteq> []"
  from own_legs_sections [OF proj d t] have m: "map section_id (own_legs t lgs) = route t" .
  with ne have o: "own_legs t lgs \<noteq> []" by auto
  from m have "last (map section_id (own_legs t lgs)) = last (route t)" by simp
  with o have "section_id (last (own_legs t lgs)) = last (route t)" by (simp add: last_map)
  with ne o show "completed_route t lgs" by (simp add: completed_route_def)
qed

lemma finished_trains_distinct:
  assumes proj: "map (\<lambda>l. (train_id l, section_id l)) lgs
           = concat (map (\<lambda>t. map (\<lambda>s. (t_id t, s)) (route t)) ts')"
    and d: "distinct (map t_id ts)" and perm: "set ts' = set ts"
  shows "set (finished_trains ts lgs) = t_id ` {t \<in> set ts. route t \<noteq> []}"
proof (intro set_eqI iffI)
  fix k assume "k \<in> set (finished_trains ts lgs)"
  then obtain l where l: "l \<in> set lgs" "train_id l = k" unfolding finished_trains_set by auto
  then have "(train_id l, section_id l) \<in> set (map (\<lambda>l. (train_id l, section_id l)) lgs)"
    by force
  then obtain t where "t \<in> set ts'" "train_id l = t_id t" "section_id l \<in> set (route t)"
    unfolding proj by auto
  with perm l show "k \<in> t_id ` {t \<in> set ts. route t \<noteq> []}" by auto
next
  fix k assume "k \<in> t_id ` {t \<in> set ts. route t \<noteq> []}"
  then obtain t where t: "t \<in> set ts" "route t \<noteq> []" "k = t_id t" by auto
  then have "last (route t) \<in> set (route t)" by simp
  with t have "(t_id t, last (route t))
      \<in> set (concat (map (\<lambda>t. map (\<lambda>s. (t_id t, s)) (route t)) ts'))"
    using perm by force
  then obtain l where l: "l \<in> set lgs" "train_id l = t_id t" "section_id l = last (route t)"
    unfolding proj [symmetric] by auto
  from last_sections_distinct [OF d t(1)] t(2)
  have "last_sections ts (t_id t) = Some (Some (last (route t)))" by (simp add: last_of_route_def)
  with l have "dict_get (last_sections ts) (train_id l) = Some (section_id l)"
    by (simp add: dict_get_Some)
  with l t show "k \<in> set (finished_trains ts lgs)" unfolding finished_trains_set by force
qed

text \<open>
  Claim C9 as stated fails when two trains share an id: the table of last sections is
  keyed by train id, so the later train overwrites the earlier one. Train X with route
  [S1] is scheduled and completes its route, a second train X with an empty route follows
  it in the scenario: no route has a repeated section, the request succeeds, one train
  has completed its route, and the throughput is 0.
\<close>

theorem throughput_duplicate_ids_counterexample:
  "trains dup_scenario = [dup_train_a, dup_train_b]
   \<and> distinct (route dup_train_a) \<and> distinct (route dup_train_b)
   \<and> generate_feasible_schedule [S1, S2] (at_minute 7) iso0 dup_scenario = Inr dup_schedule
   \<and> completed_route dup_train_a (legs dup_schedule)
   \<and> spec_throughput (trains dup_scenario) (legs dup_schedule) = 1
   \<and> throughput (objective dup_schedule) = 0"
  using dup_run
  by (simp add: dup_scenario_def dup_schedule_def dup_train_a_def dup_train_b_def
      mk_scenario_def mk_schedule_def mk_leg_def spec_throughput_def
      completed_route_def own_legs_def)

text \<open>
  Claim C9, amended: for every scenario scheduled without error whose trains have pairwise
  distinct ids and whose routes contain no repeated section ids, the throughput equals
  the number of distinct trains whose last emitted leg's section is the last element of
  the train's route, and total_delay_min is 0.
\<close>

theorem throughput_counts_completed_trains:
  assumes ok: "generate_feasible_schedule secs now fromiso sc = Inr sched"
    and norep: "\<forall>t \<in> set (trains sc). distinct (route t)"
    and ids: "distinct (map t_id (trains sc))"
  shows "throughput (objective sched) = spec_throughput (trains sc) (legs sched)
       \<and> total_delay_min (objective sched) = 0"
proof -
  let ?ts = "trains sc"
  from generate_blocks [OF ok] obtain ts' blocks where
    ts': "trains_sorted ?ts = Inr ts'"
    and l: "legs sched = concat blocks"
    and a: "list_all2 (block_ok (parse_fixed_overrides fromiso (overrides sc))) ts' blocks"
    by blast
  have proj: "map (\<lambda>l. (train_id l, section_id l)) (legs sched)
           = concat (map (\<lambda>t. map (\<lambda>s. (t_id t, s)) (route t)) ts')"
    unfolding l by (rule blocks_legs_proj [OF a])
  have perm: "set ts' = set ?ts" by (rule trains_sorted_set [OF ts'])
  have d': "distinct (map t_id ts')"
  proof -
    have "mset (map t_id ts') = mset (map t_id ?ts)"
      using trains_sorted_mset [OF ts'] by simp
    from mset_eq_imp_distinct_iff [OF this] ids show ?thesis by simp
  qed
  have "set (map t_id (filter (\<lambda>t. completed_route t (legs sched)) ?ts))
      = t_id ` {t \<in> set ?ts. route t \<noteq> []}"
    using completed_route_iff [OF proj d'] perm by auto
  also have "\<dots> = set (finished_trains ?ts (legs sched))"
    by (rule finished_trains_distinct [OF proj ids perm, symmetric])
  finally have "spec_throughput ?ts (legs sched) = length (finished_trains ?ts (legs sched))"
    unfolding spec_throughput_def finished_trains_length
    by (simp add: length_remdups_card_conv)
  with generate_Inr [OF ok] show ?thesis by auto
qed

theorem throughput_counts_completed_trains_witness:
  "generate_feasible_schedule [S1, S2] (at_minute 7) iso0 demo_scenario = Inr demo_schedule
   \<and> map route (trains demo_scenario) = [[''S1''], [''S1'', ''S2'']]
   \<and> distinct [''S1''] \<and> distinct [''S1'', ''S2'']
   \<and> distinct (map t_id (trains demo_scenario))
   \<and> throughput (objective demo_schedule) = 2
   \<and> spec_throughput (trains demo_scenario) (legs demo_schedule) = 2
   \<and> total_delay_min (objective demo_schedule) = 0"
proof -
  have a: "\<forall>t \<in> set (trains demo_scenario). distinct (route t)"
    by (simp add: demo_scenario_def mk_scenario_def)
  have b: "distinct (map t_id (trains demo_scenario))"
    by (simp add: demo_scenario_def mk_scenario_def)
  have c: "throughput (objective demo_schedule) = 2"
    by (simp add: demo_schedule_def mk_schedule_def)
  from throughput_counts_completed_trains [OF demo_run a b] c
  have "spec_throughput (trains demo_scenario) (legs demo_schedule) = 2"
    and "total_delay_min (objective demo_schedule) = 0" by simp_all
  moreover have "map route (trains demo_scenario) = [[''S1''], [''S1'', ''S2'']]"
    by (simp add: demo_scenario_def mk_scenario_def)
  moreover have "distinct [''S1'']" and "distinct [''S1'', ''S2'']" by simp_all
  ultimately show ?thesis using demo_run b c by (intro conjI)
qed

section \<open>Trains with an empty route\<close>

lemma trains_loop_filter:
  "trains_loop sm fx (filter (\<lambda>t. route t \<noteq> []) ts) st = trains_loop sm fx ts st"
proof (induction ts arbitrary: st)
  case Nil
  then show ?case by simp
next
  case (Cons t ts)
  obtain lgs le where st: "st = (lgs, le)" by (cases st) auto
  show ?case
  proof (cases "route t = []")
    case True
    with Cons.IH [of "(lgs, le)"] st show ?thesis by simp
  next
    case False
    from Cons.IH have "trains_loop sm fx (filter (\<lambda>t. route t \<noteq> []) ts) = trains_loop sm fx ts"
      by auto
    with False st show ?thesis by simp
  qed
qed

text \<open>
  When the departure of every train with an empty route can be compared with the
  departures of the trains of its priority, the sort fails with these trains exactly when
  it fails without them.
\<close>

lemma trains_sorted_filter:
  assumes "\<forall>e \<in> set ts. \<forall>u \<in> set ts. route e = [] \<longrightarrow> priority e = priority u \<longrightarrow>
             is_aware (planned_departure e) = is_aware (planned_departure u)"
  shows "trains_sorted (filter (\<lambda>t. route t \<noteq> []) ts)
       = map_sum id (filter (\<lambda>t. route t \<noteq> [])) (trains_sorted ts)"
proof (cases "\<exists>t \<in> set ts. \<exists>u \<in> set ts. incomparable t u")
  case True
  then obtain t u where tu: "t \<in> set ts" "u \<in> set ts" "incomparable t u" by blast
  with assms have "route t \<noteq> []" "route u \<noteq> []"
    by (auto simp: incomparable_def)
  with tu have "\<exists>t \<in> set (filter (\<lambda>t. route t \<noteq> []) ts).
      \<exists>u \<in> set (filter (\<lambda>t. route t \<noteq> []) ts). incomparable t u" by auto
  with True show ?thesis by (simp add: trains_sorted_def list_ex_iff)
next
  case False
  then have "\<not> (\<exists>t \<in> set (filter (\<lambda>t. route t \<noteq> []) ts).
      \<exists>u \<in> set (filter (\<lambda>t. route t \<noteq> []) ts). incomparable t u)" by auto
  with False show ?thesis by (simp add: trains_sorted_def list_ex_iff filter_sort)
qed

text \<open>
  Claim C10 as stated fails: the departure of a train with an empty route takes part in
  the sort. Train E (empty route, priority 8, aware departure) and train A (route [S1],
  priority 8, naive departure): the sort compares the two departures and the request ends
  with \<^verbatim>\<open>TypeError\<close>; without train E, train A is scheduled.
\<close>

theorem empty_route_sort_counterexample:
  "map route (trains aware_empty_scenario) = [[], [''S1'']]
   \<and> generate_feasible_schedule [S1, S2] (at_minute 7) iso0 aware_empty_scenario = Inl TypeError
   \<and> generate_feasible_schedule [S1, S2] (at_minute 7) iso0
       (aware_empty_scenario\<lparr>trains :=
          filter (\<lambda>t. route t \<noteq> []) (trains aware_empty_scenario)\<rparr>) = Inr empty_route_schedule"
  using aware_empty_run aware_empty_filtered_run
  by (simp add: aware_empty_scenario_def mk_scenario_def)

text \<open>
  Claim C10, amended: trains with an empty route are inert provided that the departure of
  each of them can be compared with the departures of the trains of its priority (both
  naive or both aware). Then the scenario and the scenario without these trains have the
  same outcome: the same error, or schedules with the same legs (so such a train adds no
  leg, raises no Unknown-Section error, and the other trains are scheduled as they would
  be without it); and such trains never add to the throughput.
\<close>

theorem empty_route_trains_inert:
  assumes "\<forall>e \<in> set (trains sc). \<forall>u \<in> set (trains sc).
             route e = [] \<longrightarrow> priority e = priority u \<longrightarrow>
             is_aware (planned_departure e) = is_aware (planned_departure u)"
  shows "map_sum id legs (generate_feasible_schedule secs now fromiso sc)
     = map_sum id legs (generate_feasible_schedule secs now fromiso
         (sc\<lparr>trains := filter (\<lambda>t. route t \<noteq> []) (trains sc)\<rparr>))
   \<and> (\<forall>s s'. generate_feasible_schedule secs now fromiso sc = Inr s \<longrightarrow>
        generate_feasible_schedule secs now fromiso
          (sc\<lparr>trains := filter (\<lambda>t. route t \<noteq> []) (trains sc)\<rparr>) = Inr s' \<longrightarrow>
        throughput (objective s) \<le> throughput (objective s'))"
proof -
  let ?sc' = "sc\<lparr>trains := filter (\<lambda>t. route t \<noteq> []) (trains sc)\<rparr>"
  let ?fx = "parse_fixed_overrides fromiso (overrides sc)"
  note srt = trains_sorted_filter [OF assms]
  have 1: "map_sum id legs (generate_feasible_schedule secs now fromiso sc)
     = map_sum id legs (generate_feasible_schedule secs now fromiso ?sc')"
  proof (cases "trains_sorted (trains sc)")
    case (Inl e)
    with srt show ?thesis by (simp add: generate_feasible_schedule_def)
  next
    case (Inr ts)
    with srt have f: "trains_sorted (trains ?sc') = Inr (filter (\<lambda>t. route t \<noteq> []) ts)" by simp
    show ?thesis
      unfolding generate_feasible_schedule_def Let_def f Inr
      by (cases "trains_loop (sections_map secs) ?fx ts ([], Map.empty)")
         (auto simp: trains_loop_filter)
  qed
  have 2: "throughput (objective s) \<le> throughput (objective s')"
    if s: "generate_feasible_schedule secs now fromiso sc = Inr s"
      and s': "generate_feasible_schedule secs now fromiso ?sc' = Inr s'" for s s'
  proof -
    from 1 s s' have "legs s = legs s'" by simp
    moreover from generate_Inr [OF s] have "throughput (objective s)
        = length (finished_trains (trains sc) (legs s))" by blast
    moreover from generate_Inr [OF s'] have "throughput (objective s')
        = length (finished_trains (filter (\<lambda>t. route t \<noteq> []) (trains sc)) (legs s'))" by auto
    ultimately show ?thesis using finished_trains_filter_le [of "trains sc" "legs s'"] by simp
  qed
  from 1 2 show ?thesis by blast
qed

theorem empty_route_trains_inert_witness:
  "map (\<lambda>t. (route t, priority t, is_aware (planned_departure t))) (trains empty_route_scenario)
     = [([], 9, False), ([''S1''], 8, False)]
   \<and> generate_feasible_schedule [S1, S2] (at_minute 7) iso0 empty_route_scenario
       = Inr empty_route_schedule
   \<and> generate_feasible_schedule [S1, S2] (at_minute 7) iso0
       (empty_route_scenario\<lparr>trains :=
          filter (\<lambda>t. route t \<noteq> []) (trains empty_route_scenario)\<rparr>) = Inr empty_route_schedule
   \<and> map train_id (legs empty_route_schedule) = [''A'']
   \<and> throughput (objective empty_route_schedule) \<le> throughput (objective empty_route_schedule)"
proof -
  have h: "\<forall>e \<in> set (trains empty_route_scenario). \<forall>u \<in> set (trains empty_route_scenario).
             route e = [] \<longrightarrow> priority e = priority u \<longrightarrow>
             is_aware (planned_departure e) = is_aware (planned_departure u)"
    by (simp add: empty_route_scenario_def mk_scenario_def)
  have m: "map (\<lambda>t. (route t, priority t, is_aware (planned_departure t)))
      (trains empty_route_scenario) = [([], 9, False), ([''S1''], 8, False)]"
    by (simp add: empty_route_scenario_def mk_scenario_def is_aware_def at_minute_def)
  from empty_route_trains_inert [OF h, of "[S1, S2]" "at_minute 7" iso0]
    empty_route_run empty_route_filtered_run
  have "throughput (objective empty_route_schedule) \<le> throughput (objective empty_route_schedule)"
    by blast
  moreover have "map train_id (legs empty_route_schedule) = [''A'']"
    by (simp add: empty_route_schedule_def mk_schedule_def mk_leg_def)
  ultimately show ?thesis using m empty_route_run empty_route_filtered_run by (intro conjI)
qed

end
